theory Spec2Isabelle
  imports Complex_Main
begin

section \<open>The door controller of main.py\<close>

text \<open>
  The module keeps its state in globals that several threads share: the main loop, the
  alarm monitor, the RFID reader, the PIR callback and the MQTT listener. The model puts the
  globals into one record and turns each function (for a thread: one iteration of its loop)
  into a function from the record to the record. What a function obtains from outside
  (a reading of \<open>time.time()\<close>, a sensor value, whether a collaborator raised) is an
  argument, one for each place where the source asks for it, in the order of the source.

  Timestamps are real numbers. Calls to collaborators that can be observed from outside
  (status messages, servo commands, sleeps, task submissions) are appended to \<open>trace\<close>, in
  program order. The two globals that form the authorization window are written through
  \<open>store_authorized_door_open\<close> and \<open>store_last_authorized_open_time\<close>, which also record
  the write in the trace, so that the order of a write and a servo command can be stated.
\<close>

subsection \<open>Data\<close>

datatype 'a outcome = Raises | Returns 'a

datatype event =
    Notify string
  | Servo int
  | Sleep real
  | Submit nat
  | Store_authorized_door_open bool
  | Store_last_authorized_open_time real

text \<open>
  \<open>active_image_futures\<close> is a Python set of future objects. Futures are numbered in the
  order in which \<open>image_executor.submit\<close> creates them; the set is a list without
  duplicates, \<open>add\<close> is \<open>List.insert\<close> and \<open>len\<close> is \<open>length\<close>. \<open>submitted\<close> counts the futures
  the executor has created and \<open>finished\<close> holds those for which \<open>done()\<close> is true; both
  belong to the executor, not to the module. \<open>last_image_attempt\<close> is the local variable of
  \<open>main\<close> that lives across iterations of its loop.
\<close>

record world =
  door_open_alarm_triggered :: bool
  authorized_door_open :: bool
  rfid_queue :: "(bool \<times> string option) list"
  last_motion_time :: real
  motion_count :: int
  pir_callback_active :: bool
  last_authorized_open_time :: real
  last_face_recognition_success :: real
  face_result_queue :: "string list"
  face_recognition_pending :: bool
  face_recognition_start_time :: real
  active_image_futures :: "nat list"
  submitted :: nat
  finished :: "nat set"
  last_image_attempt :: real
  trace :: "event list"

definition AUTHORIZED_DOOR_OPEN_INTERVAL :: real where
  "AUTHORIZED_DOOR_OPEN_INTERVAL = 5"

definition FACE_RECOGNITION_COOLDOWN :: real where
  "FACE_RECOGNITION_COOLDOWN = 10"

definition FACE_RECOGNITION_TIMEOUT :: real where
  "FACE_RECOGNITION_TIMEOUT = 5"

definition IMAGE_COOLDOWN :: real where
  "IMAGE_COOLDOWN = 3"

text \<open>The module's globals as they are initialised at import, lines 31 to 56.\<close>

definition initial_world :: world where
  "initial_world = \<lparr>
     door_open_alarm_triggered = False,
     authorized_door_open = False,
     rfid_queue = [],
     last_motion_time = 0,
     motion_count = 0,
     pir_callback_active = True,
     last_authorized_open_time = 0,
     last_face_recognition_success = 0,
     face_result_queue = [],
     face_recognition_pending = False,
     face_recognition_start_time = 0,
     active_image_futures = [],
     submitted = 0,
     finished = {},
     last_image_attempt = 0,
     trace = [] \<rparr>"

text \<open>Python's truth value of a card identifier: \<open>None\<close> and the empty string are false.\<close>

fun truthy :: "string option \<Rightarrow> bool" where
  "truthy None = False"
| "truthy (Some u) = (u \<noteq> [])"

subsection \<open>Collaborators\<close>

definition emit :: "event \<Rightarrow> world \<Rightarrow> world" where
  "emit e w = w\<lparr>trace := trace w @ [e]\<rparr>"

text \<open>
  Every call of \<open>send_status_async\<close> in the module is wrapped in a handler that only
  prints, so whether it raises changes nothing but the delivery; the trace records the call.
  \<open>servo.set_angle\<close> and \<open>time.sleep\<close> are called outside any handler and are taken to
  return.
\<close>

definition send_status_async :: "string \<Rightarrow> world \<Rightarrow> world" where
  "send_status_async kind w = emit (Notify kind) w"

definition set_angle :: "int \<Rightarrow> world \<Rightarrow> world" where
  "set_angle a w = emit (Servo a) w"

definition sleep :: "real \<Rightarrow> world \<Rightarrow> world" where
  "sleep d w = emit (Sleep d) w"

definition store_authorized_door_open :: "bool \<Rightarrow> world \<Rightarrow> world" where
  "store_authorized_door_open b w =
     emit (Store_authorized_door_open b) (w\<lparr>authorized_door_open := b\<rparr>)"

definition store_last_authorized_open_time :: "real \<Rightarrow> world \<Rightarrow> world" where
  "store_last_authorized_open_time t w =
     emit (Store_last_authorized_open_time t) (w\<lparr>last_authorized_open_time := t\<rparr>)"

text \<open>The status messages and the servo commands of a trace, in order.\<close>

fun notifications :: "event list \<Rightarrow> string list" where
  "notifications [] = []"
| "notifications (Notify k # es) = k # notifications es"
| "notifications (e # es) = notifications es"

fun servo_commands :: "event list \<Rightarrow> int list" where
  "servo_commands [] = []"
| "servo_commands (Servo a # es) = a # servo_commands es"
| "servo_commands (e # es) = servo_commands es"

subsection \<open>MQTT listener, PIR callback and watchdog\<close>

definition on_face_result :: "string \<Rightarrow> world \<Rightarrow> world" where
  "on_face_result result w = w\<lparr>face_result_queue := face_result_queue w @ [result]\<rparr>"

definition pir_motion_callback :: "real \<Rightarrow> world \<Rightarrow> world" where
  "pir_motion_callback current_time w =
     w\<lparr>last_motion_time := current_time,
       motion_count := motion_count w + 1,
       pir_callback_active := True\<rparr>"

text \<open>
  One iteration of the loop of \<open>pir_watchdog_thread\<close>. Whether the 30 seconds since the
  last check have passed depends on a local variable of the thread and on its clock; it is
  given as \<open>due\<close>. When the callback has been inactive the thread reads the sensor pin
  outside any handler: \<open>read_ok\<close> tells whether that read returns, and if it raises the
  thread ends where it is.
\<close>

definition pir_watchdog_thread :: "bool \<Rightarrow> bool \<Rightarrow> world \<Rightarrow> world" where
  "pir_watchdog_thread due read_ok w =
     (if due then
        if \<not> pir_callback_active w \<and> \<not> read_ok then w
        else sleep 5 (w\<lparr>pir_callback_active := False\<rparr>)
      else sleep 5 w)"

subsection \<open>Alarm monitor\<close>

text \<open>
  One iteration of the loop of \<open>alarm_monitor_thread\<close>: the reading of the magnetic sensor
  (1 closed, 0 open, or the read raised), then the reading of the clock. An exception is
  caught by the handler of the iteration, which prints; the sleep follows in every case.
\<close>

definition alarm_monitor_thread :: "int outcome \<Rightarrow> real \<Rightarrow> world \<Rightarrow> world" where
  "alarm_monitor_thread reading current_time w =
     sleep 0.1
       (case reading of
          Raises \<Rightarrow> w
        | Returns door_state \<Rightarrow>
            if door_state = 0 then
              if \<not> authorized_door_open w then
                if current_time - last_authorized_open_time w > AUTHORIZED_DOOR_OPEN_INTERVAL then
                  if \<not> door_open_alarm_triggered w then
                    (send_status_async ''PHYSICAL_ALARM'' w)\<lparr>door_open_alarm_triggered := True\<rparr>
                  else w
                else w
              else w
            else if door_state = 1 then
              store_authorized_door_open False (w\<lparr>door_open_alarm_triggered := False\<rparr>)
            else w)"

text \<open>The monitor run over a sequence of readings, with no other thread in between.\<close>

fun alarm_monitor_run :: "(int outcome \<times> real) list \<Rightarrow> world \<Rightarrow> world" where
  "alarm_monitor_run [] w = w"
| "alarm_monitor_run ((reading, current_time) # rs) w =
     alarm_monitor_run rs (alarm_monitor_thread reading current_time w)"

subsection \<open>RFID\<close>

text \<open>One iteration of \<open>rfid_reader_thread\<close>: a card read that returns or raises.\<close>

definition rfid_reader_thread :: "(bool \<times> string option) outcome \<Rightarrow> world \<Rightarrow> world" where
  "rfid_reader_thread r w =
     (case r of
        Raises \<Rightarrow> w
      | Returns (authorized, uid) \<Rightarrow>
          if truthy uid then w\<lparr>rfid_queue := rfid_queue w @ [(authorized, uid)]\<rparr> else w)"

text \<open>
  The loop that waits for the card to be removed, lines 189 to 197. It reads the card until
  a read reports no identifier or raises, and it has no bound of its own: the reads it will
  see are the list, and the second component tells whether the loop has left (\<open>True\<close>) or
  is still waiting when the list is used up (\<open>False\<close>).
\<close>

fun wait_card_removed :: "(bool \<times> string option) outcome list \<Rightarrow> world \<Rightarrow> world \<times> bool" where
  "wait_card_removed [] w = (w, False)"
| "wait_card_removed (Raises # rs) w = (w, True)"
| "wait_card_removed (Returns (a, current_uid) # rs) w =
     (if \<not> truthy current_uid then (w, True) else wait_card_removed rs (sleep 0.1 w))"

text \<open>
  \<open>process_rfid_events\<close>: \<open>now\<close> is the reading of the clock in line 182, \<open>reads\<close> are the
  card reads of the removal loop. The second component is whether the call has returned.
\<close>

definition process_rfid_events ::
  "real \<Rightarrow> (bool \<times> string option) outcome list \<Rightarrow> world \<Rightarrow> world \<times> bool" where
  "process_rfid_events now reads w =
     (case rfid_queue w of
        [] \<Rightarrow> (w, True)
      | (authorized, uid) # rest \<Rightarrow>
          let w0 = w\<lparr>rfid_queue := rest\<rparr> in
          if truthy uid then
            if authorized then
              let w1 = send_status_async ''AUTHORIZED_CARD'' w0;
                  w2 = store_authorized_door_open True w1;
                  w3 = store_last_authorized_open_time now w2;
                  w4 = set_angle 180 w3;
                  w5 = sleep 2 w4;
                  w6 = set_angle 0 w5;
                  (w7, left) = wait_card_removed reads w6
              in if left then (sleep 0.5 w7, True) else (w7, False)
            else (sleep 0.5 (send_status_async ''UNAUTHORIZED_CARD'' w0), True)
          else (w0, True))"

subsection \<open>Motion and distance\<close>

text \<open>
  \<open>current_time\<close> is the clock read under the motion lock, \<open>distance\<close> what
  \<open>ultrasonic_sensor.get_distance()\<close> gives: a value, \<open>None\<close>, or an exception. The function
  declares no global and writes none, so it returns the truth value only.
\<close>

definition check_motion_and_distance :: "real \<Rightarrow> real option outcome \<Rightarrow> world \<Rightarrow> bool" where
  "check_motion_and_distance current_time distance w =
     (let motion_recent = (current_time - last_motion_time w \<le> 5) in
      if motion_recent then
        (case distance of
           Raises \<Rightarrow> False
         | Returns None \<Rightarrow> False
         | Returns (Some d) \<Rightarrow> d \<le> 50)
      else False)"

subsection \<open>Face recognition\<close>

text \<open>
  \<open>start_face_recognition\<close>: \<open>submit_ok\<close> is whether \<open>image_executor.submit\<close> returns a
  future (otherwise it raises and the handler returns \<open>False\<close>), \<open>now\<close> the clock of line 257.
\<close>

definition start_face_recognition :: "bool \<Rightarrow> real \<Rightarrow> world \<Rightarrow> world \<times> bool" where
  "start_face_recognition submit_ok now w =
     (let w1 = w\<lparr>active_image_futures :=
                  filter (\<lambda>f. f \<notin> finished w) (active_image_futures w)\<rparr> in
      if length (active_image_futures w1) \<ge> 2 then (w1, False)
      else if submit_ok then
        let future = submitted w1;
            w2 = emit (Submit future) (w1\<lparr>submitted := Suc future\<rparr>);
            w3 = w2\<lparr>active_image_futures := List.insert future (active_image_futures w2)\<rparr>;
            w4 = w3\<lparr>face_recognition_pending := True\<rparr>;
            w5 = w4\<lparr>face_recognition_start_time := now\<rparr>
        in (w5, True)
      else (w1, False))"

text \<open>
  \<open>check_face_recognition_result\<close>: \<open>current_time\<close>, \<open>t_open\<close> and \<open>t_success\<close> are the clock
  readings of lines 271, 299 and 300. The results of the completed futures are only printed.
\<close>

definition check_face_recognition_result :: "real \<Rightarrow> real \<Rightarrow> real \<Rightarrow> world \<Rightarrow> world \<times> bool" where
  "check_face_recognition_result current_time t_open t_success w =
     (if \<not> face_recognition_pending w then (w, False)
      else
        let completed_futures = filter (\<lambda>f. f \<in> finished w) (active_image_futures w);
            w1 = w\<lparr>active_image_futures :=
                     filter (\<lambda>f. f \<notin> set completed_futures) (active_image_futures w)\<rparr>
        in
        if current_time - face_recognition_start_time w1 > FACE_RECOGNITION_TIMEOUT then
          (w1\<lparr>face_recognition_pending := False\<rparr>, False)
        else
          (case face_result_queue w1 of
             [] \<Rightarrow> (w1, False)
           | result # rest \<Rightarrow>
               let w2 = w1\<lparr>face_result_queue := rest, face_recognition_pending := False\<rparr> in
               if result \<noteq> ''unknown'' then
                 let w3 = store_authorized_door_open True w2;
                     w4 = store_last_authorized_open_time t_open w3;
                     w5 = w4\<lparr>last_face_recognition_success := t_success\<rparr>;
                     w6 = send_status_async ''AUTHORIZED_CARD'' w5;
                     w7 = set_angle 180 w6;
                     w8 = sleep 2 w7;
                     w9 = set_angle 0 w8
                 in (w9, True)
               else (w2, False)))"

subsection \<open>Main loop\<close>

text \<open>What one iteration of the loop of \<open>main\<close> obtains from outside, in program order.\<close>

record tick_env =
  loop_time :: real
  rfid_time :: real
  removal_reads :: "(bool \<times> string option) outcome list"
  check_time :: real
  check_open_time :: real
  check_success_time :: real
  motion_time :: real
  distance :: "real option outcome"
  submit_ok :: bool
  start_time :: real

text \<open>Python's \<open>int\<close> of a float truncates towards zero.\<close>

definition py_int :: "real \<Rightarrow> int" where
  "py_int x = (if x \<ge> 0 then \<lfloor>x\<rfloor> else \<lceil>x\<rceil>)"

text \<open>
  The condition of lines 374 to 378 under which the loop starts a recognition attempt. The
  conjunction is evaluated left to right and \<open>check_motion_and_distance\<close> has no effect on
  the globals, so the order does not show in the result.
\<close>

definition proximity_gate :: "tick_env \<Rightarrow> world \<Rightarrow> bool" where
  "proximity_gate env w =
     (\<not> face_recognition_pending w \<and>
      loop_time env - last_image_attempt w > IMAGE_COOLDOWN \<and>
      loop_time env - last_face_recognition_success w > FACE_RECOGNITION_COOLDOWN \<and>
      check_motion_and_distance (motion_time env) (distance env) w)"

text \<open>
  One iteration, lines 364 to 390. When \<open>process_rfid_events\<close> is still waiting for the
  card to be removed the iteration has not gone on, and the second component is \<open>False\<close>.
\<close>

definition main_tick :: "tick_env \<Rightarrow> world \<Rightarrow> world \<times> bool" where
  "main_tick env w =
     (let current_time = loop_time env;
          (w1, returned) = process_rfid_events (rfid_time env) (removal_reads env) w
      in
      if \<not> returned then (w1, False)
      else
        let w2 = fst (check_face_recognition_result
                        (check_time env) (check_open_time env) (check_success_time env) w1);
            w3 = (if proximity_gate env w2 then
                    fst (start_face_recognition (submit_ok env) (start_time env)
                           (w2\<lparr>last_image_attempt := current_time\<rparr>))
                  else w2);
            w4 = (if py_int current_time mod 30 = 0 then sleep 1 w3 else w3)
        in (sleep 0.05 w4, True))"

subsection \<open>Threads running together\<close>

text \<open>
  The steps that the threads of the program take, each with what it obtains from outside:
  the executor finishing a task, the MQTT listener delivering a result, the PIR callback, an
  iteration of the watchdog, of the alarm monitor, of the RFID reader and of the main loop. The three
  functions that the main loop calls are steps of their own as well, so that a sequence of
  steps may call them in any order. A step is taken as a whole; the threads interleave
  between steps.
\<close>

datatype call =
    Future_done nat
  | On_face_result string
  | Pir_motion_callback real
  | Pir_watchdog bool bool
  | Alarm_monitor "int outcome" real
  | Rfid_reader "(bool \<times> string option) outcome"
  | Process_rfid_events real "(bool \<times> string option) outcome list"
  | Check_face_recognition_result real real real
  | Start_face_recognition bool real
  | Main_tick tick_env

fun perform :: "call \<Rightarrow> world \<Rightarrow> world" where
  "perform (Future_done f) w = w\<lparr>finished := insert f (finished w)\<rparr>"
| "perform (On_face_result result) w = on_face_result result w"
| "perform (Pir_motion_callback t) w = pir_motion_callback t w"
| "perform (Pir_watchdog due read_ok) w = pir_watchdog_thread due read_ok w"
| "perform (Alarm_monitor reading t) w = alarm_monitor_thread reading t w"
| "perform (Rfid_reader r) w = rfid_reader_thread r w"
| "perform (Process_rfid_events t reads) w = fst (process_rfid_events t reads w)"
| "perform (Check_face_recognition_result t t_open t_success) w =
     fst (check_face_recognition_result t t_open t_success w)"
| "perform (Start_face_recognition ok t) w = fst (start_face_recognition ok t w)"
| "perform (Main_tick env) w = fst (main_tick env w)"

fun run :: "call list \<Rightarrow> world \<Rightarrow> world" where
  "run [] w = w"
| "run (c # cs) w = run cs (perform c w)"

text \<open>The capture tasks in flight: the futures the executor has created and not finished.\<close>

definition in_flight :: "world \<Rightarrow> nat list" where
  "in_flight w = filter (\<lambda>f. f \<notin> finished w) [0..<submitted w]"

subsection \<open>Notions used in the properties\<close>

text \<open>A card read that makes the removal loop go on: it returns an identifier.\<close>

fun card_present :: "(bool \<times> string option) outcome \<Rightarrow> bool" where
  "card_present Raises = False"
| "card_present (Returns (a, uid)) = truthy uid"

text \<open>
  What the module maintains about the executor's futures: the tracked set has no more than
  two members, all of them created by the executor, and every future that is not finished
  is tracked.
\<close>

definition pool_inv :: "world \<Rightarrow> bool" where
  "pool_inv w \<longleftrightarrow>
     distinct (active_image_futures w) \<and>
     length (active_image_futures w) \<le> 2 \<and>
     (\<forall>f < submitted w. f \<notin> finished w \<longrightarrow> f \<in> set (active_image_futures w)) \<and>
     (\<forall>f \<in> set (active_image_futures w). f < submitted w)"

text \<open>
  Two captures that never finish: the first request times out, a second one is started.
\<close>

definition two_hanging_captures :: world where
  "two_hanging_captures =
     run [Start_face_recognition True 100,
          Check_face_recognition_result 106 106 106,
          Start_face_recognition True 107] initial_world"

text \<open>
  An iteration of the main loop at time 1000 with somebody 30 cm from the ultrasonic sensor,
  no card on the reader and an executor that accepts the task.
\<close>

definition visitor_tick :: tick_env where
  "visitor_tick = \<lparr>
     loop_time = 1000, rfid_time = 1000, removal_reads = [Returns (False, None)],
     check_time = 1000, check_open_time = 1000, check_success_time = 1000,
     motion_time = 1000, distance = Returns (Some 30), submit_ok = True, start_time = 1000 \<rparr>"

text \<open>
  The clock readings of the PIR callbacks among a sequence of steps, and the values that
  \<open>last_motion_time\<close> takes before the first step and after each one.
\<close>

fun pir_readings :: "call list \<Rightarrow> real list" where
  "pir_readings [] = []"
| "pir_readings (Pir_motion_callback t # cs) = t # pir_readings cs"
| "pir_readings (c # cs) = pir_readings cs"

fun motion_times :: "call list \<Rightarrow> world \<Rightarrow> real list" where
  "motion_times [] w = [last_motion_time w]"
| "motion_times (c # cs) w = last_motion_time w # motion_times cs (perform c w)"

text \<open>Every card event in the queue carries an identifier that Python takes as true.\<close>

definition queue_inv :: "world \<Rightarrow> bool" where
  "queue_inv w \<longleftrightarrow> (\<forall>(authorized, uid) \<in> set (rfid_queue w). truthy uid)"

text \<open>
  The number of \<open>PHYSICAL_ALARM\<close> messages in a trace, and the steps in which the alarm
  monitor reads the door as closed.
\<close>

definition physical_alarms :: "event list \<Rightarrow> nat" where
  "physical_alarms es = length (filter (\<lambda>k. k = ''PHYSICAL_ALARM'') (notifications es))"

fun closed_reading :: "call \<Rightarrow> bool" where
  "closed_reading (Alarm_monitor reading t) = (reading = Returns 1)"
| "closed_reading c = False"

text \<open>
  An iteration of the main loop in which every clock reading is \<open>t\<close>, no card is on the
  reader and the distance sensor gives \<open>d\<close>.
\<close>

definition tick_at :: "real \<Rightarrow> real option outcome \<Rightarrow> tick_env" where
  "tick_at t d = \<lparr>
     loop_time = t, rfid_time = t, removal_reads = [Returns (False, None)],
     check_time = t, check_open_time = t, check_success_time = t,
     motion_time = t, distance = d, submit_ok = True, start_time = t \<rparr>"

text \<open>
  A request that times out and a result that comes too late. Motion at 99, a visitor at
  30 cm at 100: the loop starts a request. The capture task finishes, no result comes, and
  the poll at 106 times the request out. The result \<open>alice\<close> is delivered after that. The
  poll at 107 finds no request pending. Motion again at 120, a visitor at 121: the loop
  starts a second request, and the next iteration polls for its result.
\<close>

definition stale_result_calls :: "call list" where
  "stale_result_calls =
     [Pir_motion_callback 99,
      Main_tick (tick_at 100 (Returns (Some 30))),
      Future_done 0,
      Main_tick (tick_at 106 (Returns None)),
      On_face_result ''alice'',
      Main_tick (tick_at 107 (Returns None)),
      Pir_motion_callback 120,
      Main_tick (tick_at 121 (Returns (Some 30))),
      Main_tick (tick_at (1211/10) (Returns None))]"

text \<open>
  An authorized card on the reader while somebody stands at the door: the reader thread
  queues the card, the PIR sensor fires at 999, and the iteration of the main loop that
  begins at 1000 opens the door, waits for the card to be removed and goes on at 1002.6.
\<close>

definition card_tick :: tick_env where
  "card_tick = \<lparr>
     loop_time = 1000, rfid_time = 1000, removal_reads = [Returns (False, None)],
     check_time = 10026/10, check_open_time = 10026/10, check_success_time = 10026/10,
     motion_time = 10026/10, distance = Returns (Some 30), submit_ok = True,
     start_time = 10026/10 \<rparr>"

definition card_then_capture :: world where
  "card_then_capture =
     run [Rfid_reader (Returns (True, Some ''0C00201B99'')),
          Pir_motion_callback 999,
          Main_tick card_tick] initial_world"

section \<open>Properties\<close>

subsection \<open>Auxiliary facts\<close>

lemma reap_filter:
  "filter (\<lambda>f. f \<in> set xs \<longrightarrow> f \<notin> F) xs = filter (\<lambda>f. f \<notin> F) xs"
  by (rule filter_cong) auto

lemma check_not_pending:
  "\<not> face_recognition_pending w \<Longrightarrow>
     check_face_recognition_result t t_open t_success w = (w, False)"
  by (simp add: check_face_recognition_result_def)

lemma check_timeout:
  assumes "face_recognition_pending w"
    and "t - face_recognition_start_time w > FACE_RECOGNITION_TIMEOUT"
  shows "check_face_recognition_result t t_open t_success w =
     (w\<lparr>active_image_futures := filter (\<lambda>f. f \<notin> finished w) (active_image_futures w),
        face_recognition_pending := False\<rparr>, False)"
  using assms by (simp add: check_face_recognition_result_def Let_def reap_filter)

lemma start_full:
  assumes "2 \<le> length (filter (\<lambda>f. f \<notin> finished w) (active_image_futures w))"
  shows "start_face_recognition ok t w =
     (w\<lparr>active_image_futures := filter (\<lambda>f. f \<notin> finished w) (active_image_futures w)\<rparr>,
      False)"
  using assms by (simp add: start_face_recognition_def Let_def)

lemmas prims = emit_def send_status_async_def set_angle_def sleep_def
  store_authorized_door_open_def store_last_authorized_open_time_def

lemma wait_card_removed_eq:
  "wait_card_removed reads w =
     (w\<lparr>trace := trace w @ replicate (length (takeWhile card_present reads)) (Sleep (1/10))\<rparr>,
      length (takeWhile card_present reads) < length reads)"
proof (induction reads arbitrary: w)
  case Nil
  show ?case by simp
next
  case (Cons r rs)
  show ?case
  proof (cases r)
    case Raises
    then show ?thesis by simp
  next
    case (Returns p)
    obtain a uid where p: "p = (a, uid)" by (cases p)
    show ?thesis
      using Returns p Cons.IH [of "sleep (1/10) w"]
      by (simp add: sleep_def emit_def replicate_append_same)
  qed
qed

lemma process_rfid_events_pool:
  "active_image_futures (fst (process_rfid_events now reads w)) = active_image_futures w \<and>
   submitted (fst (process_rfid_events now reads w)) = submitted w \<and>
   finished (fst (process_rfid_events now reads w)) = finished w"
  by (simp add: process_rfid_events_def wait_card_removed_eq prims Let_def 
      split: list.split prod.split)

lemma pool_inv_start:
  assumes "pool_inv w"
  shows "pool_inv (fst (start_face_recognition ok t w))"
proof -
  let ?xs = "filter (\<lambda>f. f \<notin> finished w) (active_image_futures w)"
  have "length ?xs \<le> length (active_image_futures w)"
    by (rule length_filter_le)
  also have "\<dots> \<le> 2"
    using assms by (simp add: pool_inv_def)
  finally have len: "length ?xs \<le> 2" .
  have pruned: "pool_inv (w\<lparr>active_image_futures := ?xs\<rparr>)"
    using assms len by (simp add: pool_inv_def)
  show ?thesis
  proof (cases "2 \<le> length ?xs \<or> \<not> ok")
    case True
    then show ?thesis
      using pruned by (auto simp: start_face_recognition_def Let_def)
  next
    case False
    then have "length ?xs < 2" and ok by auto
    then show ?thesis
      using assms
      by (auto simp: start_face_recognition_def Let_def emit_def pool_inv_def less_Suc_eq)
  qed
qed

lemma pool_inv_prune:
  assumes "pool_inv w"
  shows "pool_inv (w\<lparr>active_image_futures :=
                     filter (\<lambda>f. f \<notin> finished w) (active_image_futures w)\<rparr>)"
proof -
  let ?xs = "filter (\<lambda>f. f \<notin> finished w) (active_image_futures w)"
  have "length ?xs \<le> length (active_image_futures w)"
    by (rule length_filter_le)
  also have "\<dots> \<le> 2"
    using assms by (simp add: pool_inv_def)
  finally have len: "length ?xs \<le> 2" .
  then show ?thesis
    using assms by (simp add: pool_inv_def)
qed

lemma pool_inv_frame:
  assumes "pool_inv w"
    and "active_image_futures w' = active_image_futures w"
    and "submitted w' = submitted w"
    and "finished w' = finished w"
  shows "pool_inv w'"
  using assms by (simp add: pool_inv_def)

lemma pool_inv_check:
  assumes "pool_inv w"
  shows "pool_inv (fst (check_face_recognition_result t t_open t_success w))"
proof -
  let ?p = "w\<lparr>active_image_futures :=
                 filter (\<lambda>f. f \<notin> finished w) (active_image_futures w)\<rparr>"
  have "pool_inv ?p"
    using assms by (rule pool_inv_prune)
  moreover have
    "active_image_futures (fst (check_face_recognition_result t t_open t_success w))
       = (if face_recognition_pending w then active_image_futures ?p else active_image_futures w)
     \<and> submitted (fst (check_face_recognition_result t t_open t_success w)) = submitted w
     \<and> finished (fst (check_face_recognition_result t t_open t_success w)) = finished w"
    by (simp add: check_face_recognition_result_def Let_def prims reap_filter split: list.split)
  ultimately show ?thesis
    using assms by (cases "face_recognition_pending w") (auto intro: pool_inv_frame)
qed

lemma in_flight_bound:
  assumes "pool_inv w"
  shows "set (in_flight w) = set (filter (\<lambda>f. f \<notin> finished w) (active_image_futures w))"
    and "length (in_flight w) = length (filter (\<lambda>f. f \<notin> finished w) (active_image_futures w))"
    and "length (in_flight w) \<le> 2"
proof -
  let ?xs = "filter (\<lambda>f. f \<notin> finished w) (active_image_futures w)"
  show s: "set (in_flight w) = set ?xs"
    using assms by (auto simp: in_flight_def pool_inv_def)
  have "distinct (in_flight w)" "distinct ?xs"
    using assms by (simp_all add: in_flight_def pool_inv_def)
  then show l: "length (in_flight w) = length ?xs"
    using s by (metis distinct_card)
  have "length ?xs \<le> length (active_image_futures w)"
    by (rule length_filter_le)
  moreover have "length (active_image_futures w) \<le> 2"
    using assms by (simp add: pool_inv_def)
  ultimately show "length (in_flight w) \<le> 2"
    using l by linarith
qed


lemma pool_inv_initial: "pool_inv initial_world"
  by (simp add: pool_inv_def initial_world_def)

lemma pool_inv_main_tick:
  assumes "pool_inv w"
  shows "pool_inv (fst (main_tick env w))"
proof -
  obtain w1 returned where p: "process_rfid_events (rfid_time env) (removal_reads env) w = (w1, returned)"
    by (cases "process_rfid_events (rfid_time env) (removal_reads env) w")
  have w1: "pool_inv w1"
    using assms process_rfid_events_pool [of "rfid_time env" "removal_reads env" w] p
    by (auto intro: pool_inv_frame)
  let ?w2 = "fst (check_face_recognition_result
                    (check_time env) (check_open_time env) (check_success_time env) w1)"
  have w2: "pool_inv ?w2"
    using w1 by (rule pool_inv_check)
  have "pool_inv (?w2\<lparr>last_image_attempt := loop_time env\<rparr>)"
    using w2 by (simp add: pool_inv_def)
  then have w3: "pool_inv (fst (start_face_recognition (submit_ok env) (start_time env)
                           (?w2\<lparr>last_image_attempt := loop_time env\<rparr>)))"
    by (rule pool_inv_start)
  have sl: "\<And>d v. pool_inv v \<Longrightarrow> pool_inv (sleep d v)"
    by (simp add: pool_inv_def sleep_def emit_def)
  show ?thesis
    using p w1 w2 w3 by (simp add: main_tick_def Let_def sl)
qed

lemma pool_inv_perform:
  assumes "pool_inv w"
  shows "pool_inv (perform c w)"
proof (cases c)
  case (Future_done f)
  then show ?thesis using assms by (auto simp: pool_inv_def)
next
  case (On_face_result r)
  then show ?thesis using assms by (simp add: pool_inv_def on_face_result_def)
next
  case (Pir_motion_callback t)
  then show ?thesis using assms by (simp add: pool_inv_def pir_motion_callback_def)
next
  case (Pir_watchdog due read_ok)
  then show ?thesis
    using assms by (simp add: pool_inv_def pir_watchdog_thread_def sleep_def emit_def)
next
  case (Alarm_monitor reading t)
  then show ?thesis
    using assms
    by (simp add: pool_inv_def alarm_monitor_thread_def prims split: outcome.split)
next
  case (Rfid_reader r)
  then show ?thesis
    using assms
    by (simp add: pool_inv_def rfid_reader_thread_def split: outcome.split prod.split)
next
  case (Process_rfid_events t reads)
  then show ?thesis
    using assms process_rfid_events_pool [of t reads w] by (auto intro: pool_inv_frame)
next
  case (Check_face_recognition_result t t_open t_success)
  then show ?thesis using assms by (simp add: pool_inv_check)
next
  case (Start_face_recognition ok t)
  then show ?thesis using assms by (simp add: pool_inv_start)
next
  case (Main_tick env)
  then show ?thesis using assms by (simp add: pool_inv_main_tick)
qed

lemma pool_inv_run:
  "pool_inv w \<Longrightarrow> pool_inv (run cs w)"
  by (induction cs arbitrary: w) (simp_all add: pool_inv_perform)

lemma two_hanging_captures_eq:
  "two_hanging_captures =
     initial_world\<lparr>face_recognition_pending := True, face_recognition_start_time := 107,
       active_image_futures := [1, 0], submitted := 2, trace := [Submit 0, Submit 1]\<rparr>"
  by (simp add: two_hanging_captures_def start_face_recognition_def
        check_face_recognition_result_def initial_world_def emit_def Let_def
        FACE_RECOGNITION_TIMEOUT_def)

lemma check_motion_and_distance_iff:
  "check_motion_and_distance t reading w \<longleftrightarrow>
     t - last_motion_time w \<le> 5 \<and> (\<exists>d. reading = Returns (Some d) \<and> d \<le> 50)"
  by (simp add: check_motion_and_distance_def Let_def split: outcome.split option.split)

lemma process_rfid_events_frame:
  "last_motion_time (fst (process_rfid_events now reads w)) = last_motion_time w \<and>
   last_face_recognition_success (fst (process_rfid_events now reads w))
     = last_face_recognition_success w \<and>
   door_open_alarm_triggered (fst (process_rfid_events now reads w))
     = door_open_alarm_triggered w"
  by (simp add: process_rfid_events_def wait_card_removed_eq prims Let_def
      split: list.split prod.split)

lemma check_frame:
  "last_motion_time (fst (check_face_recognition_result t t_open t_success w))
     = last_motion_time w \<and>
   door_open_alarm_triggered (fst (check_face_recognition_result t t_open t_success w))
     = door_open_alarm_triggered w"
  by (simp add: check_face_recognition_result_def prims Let_def split: list.split)

lemma start_frame:
  "last_motion_time (fst (start_face_recognition ok t w)) = last_motion_time w \<and>
   last_face_recognition_success (fst (start_face_recognition ok t w))
     = last_face_recognition_success w \<and>
   door_open_alarm_triggered (fst (start_face_recognition ok t w))
     = door_open_alarm_triggered w"
  by (simp add: start_face_recognition_def prims Let_def)

lemma main_tick_last_motion_time:
  "last_motion_time (fst (main_tick env w)) = last_motion_time w"
proof -
  obtain w1 returned where
    p: "process_rfid_events (rfid_time env) (removal_reads env) w = (w1, returned)"
    by (cases "process_rfid_events (rfid_time env) (removal_reads env) w")
  have "last_motion_time w1 = last_motion_time w"
    using process_rfid_events_frame [of "rfid_time env" "removal_reads env" w] p by simp
  then show ?thesis
    using p by (simp add: main_tick_def Let_def sleep_def emit_def check_frame start_frame)
qed

lemma perform_last_motion_time:
  "last_motion_time (perform c w) =
     (case c of Pir_motion_callback t \<Rightarrow> t | _ \<Rightarrow> last_motion_time w)"
  by (cases c)
     (simp_all add: on_face_result_def pir_motion_callback_def pir_watchdog_thread_def
        alarm_monitor_thread_def prims rfid_reader_thread_def process_rfid_events_frame check_frame start_frame
        main_tick_last_motion_time split: outcome.split prod.split)

lemma other_call_keeps_motion:
  assumes "\<And>t. c \<noteq> Pir_motion_callback t"
  shows "pir_readings (c # cs) = pir_readings cs \<and>
         last_motion_time (perform c w) = last_motion_time w"
proof (cases c)
  case (Pir_motion_callback t)
  then show ?thesis using assms by simp
qed (use perform_last_motion_time [of c w] in simp_all)

lemma motion_times_hd:
  "motion_times cs w = last_motion_time w # tl (motion_times cs w)"
  by (cases cs) simp_all

lemma process_rfid_events_authorized:
  assumes "rfid_queue w = (True, uid) # rest" and "truthy uid"
  shows "process_rfid_events now reads w =
     (let k = length (takeWhile card_present reads);
          returned = (k < length reads)
      in (w\<lparr>rfid_queue := rest, authorized_door_open := True, last_authorized_open_time := now,
            trace := trace w @
              [Notify ''AUTHORIZED_CARD'', Store_authorized_door_open True,
               Store_last_authorized_open_time now, Servo 180, Sleep 2, Servo 0] @
              replicate k (Sleep (1/10)) @ (if returned then [Sleep (1/2)] else [])\<rparr>,
          returned))"
  using assms
  by (simp add: process_rfid_events_def wait_card_removed_eq prims Let_def)

lemma process_rfid_events_unauthorized:
  assumes "rfid_queue w = (False, uid) # rest" and "truthy uid"
  shows "process_rfid_events now reads w =
     (w\<lparr>rfid_queue := rest,
        trace := trace w @ [Notify ''UNAUTHORIZED_CARD'', Sleep (1/2)]\<rparr>, True)"
  using assms
  by (simp add: process_rfid_events_def prims Let_def)

lemma process_rfid_events_queue:
  "rfid_queue (fst (process_rfid_events now reads w)) = tl (rfid_queue w)"
  by (simp add: process_rfid_events_def wait_card_removed_eq prims Let_def
      split: list.split prod.split)

lemma check_queue:
  "rfid_queue (fst (check_face_recognition_result t t_open t_success w)) = rfid_queue w"
  by (simp add: check_face_recognition_result_def prims Let_def split: list.split)

lemma start_queue:
  "rfid_queue (fst (start_face_recognition ok t w)) = rfid_queue w"
  by (simp add: start_face_recognition_def prims Let_def)

lemma main_tick_queue:
  "rfid_queue (fst (main_tick env w)) = tl (rfid_queue w)"
proof -
  obtain w1 returned where
    p: "process_rfid_events (rfid_time env) (removal_reads env) w = (w1, returned)"
    by (cases "process_rfid_events (rfid_time env) (removal_reads env) w")
  have "rfid_queue w1 = tl (rfid_queue w)"
    using process_rfid_events_queue [of "rfid_time env" "removal_reads env" w] p by simp
  then show ?thesis
    using p by (simp add: main_tick_def Let_def sleep_def emit_def check_queue start_queue)
qed

lemma queue_inv_tl:
  "queue_inv w \<Longrightarrow> rfid_queue w' = tl (rfid_queue w) \<Longrightarrow> queue_inv w'"
  unfolding queue_inv_def by (cases "rfid_queue w") auto

lemma queue_inv_same:
  "queue_inv w \<Longrightarrow> rfid_queue w' = rfid_queue w \<Longrightarrow> queue_inv w'"
  by (simp add: queue_inv_def)

lemma queue_inv_perform:
  assumes "queue_inv w"
  shows "queue_inv (perform c w)"
proof (cases c)
  case (Rfid_reader r)
  then show ?thesis
    using assms
    by (auto simp: queue_inv_def rfid_reader_thread_def split: outcome.split)
next
  case (Process_rfid_events t reads)
  then show ?thesis
    using assms process_rfid_events_queue [of t reads w] by (auto intro: queue_inv_tl)
next
  case (Main_tick env)
  then show ?thesis
    using assms main_tick_queue [of env w] by (auto intro: queue_inv_tl)
next
  case (Alarm_monitor reading t)
  then show ?thesis
    using assms
    by (auto intro!: queue_inv_same [OF assms] simp: alarm_monitor_thread_def prims
          split: outcome.split)
qed (use assms in \<open>auto intro!: queue_inv_same [OF assms]
       simp: on_face_result_def pir_motion_callback_def pir_watchdog_thread_def prims
         check_queue start_queue\<close>)

lemma queue_inv_run:
  "queue_inv w \<Longrightarrow> queue_inv (run cs w)"
  by (induction cs arbitrary: w) (simp_all add: queue_inv_perform)

lemma queue_inv_initial: "queue_inv initial_world"
  by (simp add: queue_inv_def initial_world_def)

lemma notifications_append:
  "notifications (xs @ ys) = notifications xs @ notifications ys"
  by (induction xs rule: notifications.induct) simp_all

lemma notifications_sleeps:
  "notifications (replicate k (Sleep d)) = []"
  by (induction k) simp_all

lemma alarm_monitor_thread_step:
  "door_open_alarm_triggered (alarm_monitor_thread reading t w) =
     (if reading = Returns 1 then False
      else door_open_alarm_triggered w \<or>
           (reading = Returns 0 \<and> \<not> authorized_door_open w \<and>
            t - last_authorized_open_time w > 5))"
  "authorized_door_open (alarm_monitor_thread reading t w) =
     (if reading = Returns 1 then False else authorized_door_open w)"
  "last_authorized_open_time (alarm_monitor_thread reading t w) = last_authorized_open_time w"
  "notifications (trace (alarm_monitor_thread reading t w)) =
     notifications (trace w) @
       (if reading = Returns 0 \<and> \<not> authorized_door_open w \<and>
           t - last_authorized_open_time w > 5 \<and> \<not> door_open_alarm_triggered w
        then [''PHYSICAL_ALARM''] else [])"
  by (auto simp: alarm_monitor_thread_def prims AUTHORIZED_DOOR_OPEN_INTERVAL_def
        notifications_append split: outcome.split)

lemma alarm_run_state:
  assumes "\<forall>r \<in> set rs. fst r = Returns 0 \<or> fst r = Returns 1"
    and "sorted (t0 # map snd rs)"
    and "door_open_alarm_triggered w \<longrightarrow>
           \<not> authorized_door_open w \<and> t0 - last_authorized_open_time w > 5"
    and "rs \<noteq> []"
  shows "door_open_alarm_triggered (alarm_monitor_run rs w) \<longleftrightarrow>
           fst (last rs) = Returns 0 \<and>
           \<not> authorized_door_open (alarm_monitor_run rs w) \<and>
           snd (last rs) - last_authorized_open_time (alarm_monitor_run rs w) > 5"
  using assms
proof (induction rs arbitrary: w t0)
  case Nil
  then show ?case by simp
next
  case (Cons r rs)
  obtain reading t where r: "r = (reading, t)" by (cases r)
  let ?w1 = "alarm_monitor_thread reading t w"
  have rd: "reading = Returns 0 \<or> reading = Returns 1"
    using Cons.prems(1) r by simp
  have t: "t0 \<le> t"
    using Cons.prems(2) r by simp
  have S: "door_open_alarm_triggered ?w1 \<longleftrightarrow>
             reading = Returns 0 \<and> \<not> authorized_door_open ?w1 \<and>
             t - last_authorized_open_time ?w1 > 5"
    using rd t Cons.prems(3) by (auto simp: alarm_monitor_thread_step)
  show ?case
  proof (cases "rs = []")
    case True
    then show ?thesis using S r by simp
  next
    case False
    have "door_open_alarm_triggered (alarm_monitor_run rs ?w1) \<longleftrightarrow>
           fst (last rs) = Returns 0 \<and>
           \<not> authorized_door_open (alarm_monitor_run rs ?w1) \<and>
           snd (last rs) - last_authorized_open_time (alarm_monitor_run rs ?w1) > 5"
    proof (rule Cons.IH [of t ?w1])
      show "\<forall>r \<in> set rs. fst r = Returns 0 \<or> fst r = Returns 1"
        using Cons.prems(1) by simp
      show "sorted (t # map snd rs)"
        using Cons.prems(2) r by simp
      show "door_open_alarm_triggered ?w1 \<longrightarrow>
              \<not> authorized_door_open ?w1 \<and> t - last_authorized_open_time ?w1 > 5"
        using S by blast
      show "rs \<noteq> []" by (rule False)
    qed
    then show ?thesis using False r by simp
  qed
qed


lemma physical_alarms_append:
  "physical_alarms (xs @ ys) = physical_alarms xs + physical_alarms ys"
  by (simp add: physical_alarms_def notifications_append)

lemma process_rfid_events_alarms:
  "physical_alarms (trace (fst (process_rfid_events now reads w))) = physical_alarms (trace w)"
  by (simp add: process_rfid_events_def wait_card_removed_eq prims Let_def
        physical_alarms_def notifications_append notifications_sleeps
      split: list.split prod.split)

lemma check_alarms:
  "physical_alarms (trace (fst (check_face_recognition_result t t_open t_success w)))
     = physical_alarms (trace w)"
  by (simp add: check_face_recognition_result_def prims Let_def
        physical_alarms_def notifications_append split: list.split)

lemma start_alarms:
  "physical_alarms (trace (fst (start_face_recognition ok t w))) = physical_alarms (trace w)"
  by (simp add: start_face_recognition_def prims Let_def
        physical_alarms_def notifications_append)

lemma main_tick_alarms:
  "physical_alarms (trace (fst (main_tick env w))) = physical_alarms (trace w) \<and>
   door_open_alarm_triggered (fst (main_tick env w)) = door_open_alarm_triggered w"
proof -
  obtain w1 returned where
    p: "process_rfid_events (rfid_time env) (removal_reads env) w = (w1, returned)"
    by (cases "process_rfid_events (rfid_time env) (removal_reads env) w")
  have "physical_alarms (trace w1) = physical_alarms (trace w)"
    and "door_open_alarm_triggered w1 = door_open_alarm_triggered w"
    using process_rfid_events_alarms [of "rfid_time env" "removal_reads env" w]
      process_rfid_events_frame [of "rfid_time env" "removal_reads env" w] p by simp_all
  then show ?thesis
    using p
    by (simp add: main_tick_def Let_def sleep_def emit_def physical_alarms_append
          check_alarms start_alarms check_frame start_frame)
       (simp add: physical_alarms_def)
qed

lemma perform_alarms:
  assumes "\<not> closed_reading c"
  shows "(door_open_alarm_triggered w \<longrightarrow> door_open_alarm_triggered (perform c w)) \<and>
         physical_alarms (trace (perform c w)) =
           physical_alarms (trace w) +
             (if \<not> door_open_alarm_triggered w \<and> door_open_alarm_triggered (perform c w)
              then 1 else 0)"
proof (cases c)
  case (Alarm_monitor reading t)
  then show ?thesis
    using assms by (auto simp: alarm_monitor_thread_step physical_alarms_def)
next
  case (Main_tick env)
  then show ?thesis by (simp add: main_tick_alarms)
next
  case (Pir_watchdog due read_ok)
  then show ?thesis
    by (simp add: pir_watchdog_thread_def sleep_def emit_def physical_alarms_append)
       (simp add: physical_alarms_def)
qed (simp_all add: on_face_result_def pir_motion_callback_def rfid_reader_thread_def
       process_rfid_events_alarms process_rfid_events_frame check_alarms check_frame
       start_alarms start_frame split: outcome.split prod.split)

lemma run_alarms:
  assumes "\<forall>c \<in> set cs. \<not> closed_reading c"
  shows "physical_alarms (trace (run cs w)) \<le>
           physical_alarms (trace w) + (if door_open_alarm_triggered w then 0 else 1)"
  using assms
proof (induction cs arbitrary: w)
  case Nil
  show ?case by simp
next
  case (Cons c cs)
  have c: "\<not> closed_reading c" and cs: "\<forall>c \<in> set cs. \<not> closed_reading c"
    using Cons.prems by simp_all
  note step = perform_alarms [OF c, of w]
  note rest = Cons.IH [OF cs, of "perform c w"]
  show ?case
    using step rest by (auto split: if_splits)
qed


lemmas eval_defs = main_tick_def process_rfid_events_def check_face_recognition_result_def
  start_face_recognition_def proximity_gate_def check_motion_and_distance_def
  on_face_result_def pir_motion_callback_def rfid_reader_thread_def
  emit_def send_status_async_def set_angle_def sleep_def
  store_authorized_door_open_def store_last_authorized_open_time_def
  py_int_def Let_def initial_world_def
  FACE_RECOGNITION_TIMEOUT_def FACE_RECOGNITION_COOLDOWN_def IMAGE_COOLDOWN_def

lemma servo_commands_append:
  "servo_commands (xs @ ys) = servo_commands xs @ servo_commands ys"
  by (induction xs rule: servo_commands.induct) simp_all

lemma check_success:
  assumes "face_recognition_pending w"
    and "\<not> t - face_recognition_start_time w > FACE_RECOGNITION_TIMEOUT"
    and "face_result_queue w = result # rest"
    and "result \<noteq> ''unknown''"
  shows "check_face_recognition_result t t_open t_success w =
     (w\<lparr>active_image_futures := filter (\<lambda>f. f \<notin> finished w) (active_image_futures w),
        face_result_queue := rest,
        face_recognition_pending := False,
        authorized_door_open := True,
        last_authorized_open_time := t_open,
        last_face_recognition_success := t_success,
        trace := trace w @
          [Store_authorized_door_open True, Store_last_authorized_open_time t_open,
           Notify ''AUTHORIZED_CARD'', Servo 180, Sleep 2, Servo 0]\<rparr>, True)"
  using assms
  by (simp add: check_face_recognition_result_def Let_def prims reap_filter)

lemma check_submitted:
  "submitted (fst (check_face_recognition_result t t_open t_success w)) = submitted w \<and>
   (\<not> face_recognition_pending w \<longrightarrow>
      last_face_recognition_success (fst (check_face_recognition_result t t_open t_success w))
        = last_face_recognition_success w)"
  by (simp add: check_face_recognition_result_def Let_def prims split: list.split)

lemma main_tick_cooldown:
  assumes "submitted (fst (main_tick env w)) \<noteq> submitted w"
  shows "loop_time env - last_face_recognition_success (fst (main_tick env w))
           > FACE_RECOGNITION_COOLDOWN"
proof -
  obtain w1 returned where
    p: "process_rfid_events (rfid_time env) (removal_reads env) w = (w1, returned)"
    by (cases "process_rfid_events (rfid_time env) (removal_reads env) w")
  let ?w2 = "fst (check_face_recognition_result
                    (check_time env) (check_open_time env) (check_success_time env) w1)"
  have s1: "submitted w1 = submitted w"
    using process_rfid_events_pool [of "rfid_time env" "removal_reads env" w] p by simp
  have s2: "submitted ?w2 = submitted w"
    using s1 by (simp add: check_submitted)
  have r: returned
    using assms p s1 by (auto simp: main_tick_def Let_def split: if_splits)
  have g: "proximity_gate env ?w2"
    using assms p r s2 by (auto simp: main_tick_def Let_def sleep_def emit_def split: if_splits)
  then have "loop_time env - last_face_recognition_success ?w2 > FACE_RECOGNITION_COOLDOWN"
    by (simp add: proximity_gate_def)
  then show ?thesis
    using p r g by (simp add: main_tick_def Let_def sleep_def emit_def start_frame)
qed

lemma motion_times_sorted_iff:
  "sorted (motion_times cs w) = sorted (last_motion_time w # pir_readings cs)"
proof (induction cs arbitrary: w)
  case Nil
  show ?case by simp
next
  case (Cons c cs)
  obtain ys where ys: "motion_times cs (perform c w) = last_motion_time (perform c w) # ys"
    using motion_times_hd by blast
  have "sorted (motion_times (c # cs) w) \<longleftrightarrow>
          last_motion_time w \<le> last_motion_time (perform c w) \<and>
          sorted (motion_times cs (perform c w))"
    by (auto simp: ys)
  also have "\<dots> \<longleftrightarrow>
          last_motion_time w \<le> last_motion_time (perform c w) \<and>
          sorted (last_motion_time (perform c w) # pir_readings cs)"
    by (simp only: Cons.IH)
  also have "\<dots> \<longleftrightarrow> sorted (last_motion_time w # pir_readings (c # cs))"
  proof (cases "\<exists>t. c = Pir_motion_callback t")
    case True
    then obtain t where t: "c = Pir_motion_callback t" by blast
    have "last_motion_time (perform c w) = t"
      using t by (simp add: pir_motion_callback_def)
    moreover have "pir_readings (c # cs) = t # pir_readings cs"
      using t by simp
    ultimately show ?thesis
      by (simp only: sorted2)
  next
    case False
    then show ?thesis
      using other_call_keeps_motion [of c cs w] by simp
  qed
  finally show ?case .
qed

lemma run_last_motion_time:
  "last_motion_time (run cs w) = last (last_motion_time w # pir_readings cs)"
proof (induction cs arbitrary: w)
  case Nil
  show ?case by simp
next
  case (Cons c cs)
  show ?case
  proof (cases "\<exists>t. c = Pir_motion_callback t")
    case True
    then show ?thesis by (auto simp: Cons.IH perform_last_motion_time)
  next
    case False
    then show ?thesis
      using other_call_keeps_motion [of c cs w] by (simp add: Cons.IH)
  qed
qed

lemma check_result_queue:
  "face_result_queue (fst (check_face_recognition_result t t_open t_success w)) =
     (if face_recognition_pending w \<and>
         \<not> t - face_recognition_start_time w > FACE_RECOGNITION_TIMEOUT
      then tl (face_result_queue w) else face_result_queue w)"
  by (simp add: check_face_recognition_result_def Let_def prims split: list.split)

lemma process_rfid_events_recognition:
  "face_result_queue (fst (process_rfid_events now reads w)) = face_result_queue w \<and>
   face_recognition_pending (fst (process_rfid_events now reads w))
     = face_recognition_pending w \<and>
   face_recognition_start_time (fst (process_rfid_events now reads w))
     = face_recognition_start_time w"
  by (simp add: process_rfid_events_def wait_card_removed_eq prims Let_def
      split: list.split prod.split)

lemma start_result_queue:
  "face_result_queue (fst (start_face_recognition ok now w)) = face_result_queue w"
  by (simp add: start_face_recognition_def prims Let_def)

lemma main_tick_result_queue:
  "face_result_queue (fst (main_tick env w)) =
     (if snd (process_rfid_events (rfid_time env) (removal_reads env) w) \<and>
         face_recognition_pending w \<and>
         \<not> check_time env - face_recognition_start_time w > FACE_RECOGNITION_TIMEOUT
      then tl (face_result_queue w) else face_result_queue w)"
proof -
  obtain w1 returned where
    p: "process_rfid_events (rfid_time env) (removal_reads env) w = (w1, returned)"
    by (cases "process_rfid_events (rfid_time env) (removal_reads env) w")
  have "face_result_queue w1 = face_result_queue w"
    and "face_recognition_pending w1 = face_recognition_pending w"
    and "face_recognition_start_time w1 = face_recognition_start_time w"
    using process_rfid_events_recognition [of "rfid_time env" "removal_reads env" w] p
    by simp_all
  then show ?thesis
    using p
    by (simp add: main_tick_def Let_def sleep_def emit_def check_result_queue
          start_result_queue)
qed

lemma perform_result_queue:
  "face_result_queue (perform c w) =
     (case c of
        On_face_result result \<Rightarrow> face_result_queue w @ [result]
      | Check_face_recognition_result t t_open t_success \<Rightarrow>
          if face_recognition_pending w \<and>
             \<not> t - face_recognition_start_time w > FACE_RECOGNITION_TIMEOUT
          then tl (face_result_queue w) else face_result_queue w
      | Main_tick env \<Rightarrow>
          if snd (process_rfid_events (rfid_time env) (removal_reads env) w) \<and>
             face_recognition_pending w \<and>
             \<not> check_time env - face_recognition_start_time w > FACE_RECOGNITION_TIMEOUT
          then tl (face_result_queue w) else face_result_queue w
      | _ \<Rightarrow> face_result_queue w)"
proof (cases c)
  case (Future_done f)
  then show ?thesis by simp
next
  case (On_face_result result)
  then show ?thesis by (simp add: on_face_result_def)
next
  case (Pir_motion_callback t)
  then show ?thesis by (simp add: pir_motion_callback_def)
next
  case (Pir_watchdog due read_ok)
  then show ?thesis by (simp add: pir_watchdog_thread_def sleep_def emit_def)
next
  case (Alarm_monitor reading t)
  then show ?thesis
    by (simp add: alarm_monitor_thread_def prims split: outcome.split)
next
  case (Rfid_reader r)
  then show ?thesis
    by (simp add: rfid_reader_thread_def split: outcome.split prod.split)
next
  case (Process_rfid_events t reads)
  then show ?thesis by (simp add: process_rfid_events_recognition)
next
  case (Check_face_recognition_result t t_open t_success)
  then show ?thesis by (simp add: check_result_queue)
next
  case (Start_face_recognition ok t)
  then show ?thesis by (simp add: start_result_queue)
next
  case (Main_tick env)
  then show ?thesis by (simp add: main_tick_result_queue)
qed

lemma check_unknown:
  assumes "face_recognition_pending w"
    and "\<not> t - face_recognition_start_time w > FACE_RECOGNITION_TIMEOUT"
    and "face_result_queue w = ''unknown'' # rest"
  shows "check_face_recognition_result t t_open t_success w =
     (w\<lparr>active_image_futures := filter (\<lambda>f. f \<notin> finished w) (active_image_futures w),
        face_result_queue := rest,
        face_recognition_pending := False\<rparr>, False)"
  using assms
  by (simp add: check_face_recognition_result_def Let_def prims reap_filter)

lemma start_success:
  assumes "snd (start_face_recognition ok now w)"
  shows "fst (start_face_recognition ok now w) =
     w\<lparr>active_image_futures :=
          List.insert (submitted w)
            (filter (\<lambda>f. f \<notin> finished w) (active_image_futures w)),
        submitted := Suc (submitted w),
        face_recognition_pending := True,
        face_recognition_start_time := now,
        trace := trace w @ [Submit (submitted w)]\<rparr>"
proof -
  have room: "\<not> 2 \<le> length (filter (\<lambda>f. f \<notin> finished w) (active_image_futures w))"
  proof
    assume "2 \<le> length (filter (\<lambda>f. f \<notin> finished w) (active_image_futures w))"
    then have "\<not> snd (start_face_recognition ok now w)"
      by (simp add: start_full)
    then show False using assms by simp
  qed
  have ok
  proof (rule ccontr)
    assume "\<not> ok"
    then have "\<not> snd (start_face_recognition ok now w)"
      by (simp add: start_face_recognition_def Let_def)
    then show False using assms by simp
  qed
  then show ?thesis
    using room by (simp add: start_face_recognition_def Let_def emit_def)
qed

lemma late_result_end_to_end:
  assumes "\<not> face_recognition_pending w"
    and "face_result_queue w = []"
    and "result \<noteq> ''unknown''"
    and "snd (start_face_recognition ok now (on_face_result result w))"
    and "\<not> t - now > FACE_RECOGNITION_TIMEOUT"
  shows "(let (w', decision) =
            check_face_recognition_result t t_open t_success
              (fst (start_face_recognition ok now (on_face_result result w)))
          in decision \<and> face_result_queue w' = [] \<and>
             authorized_door_open w' \<and> last_authorized_open_time w' = t_open \<and>
             last_face_recognition_success w' = t_success \<and>
             servo_commands (trace w') = servo_commands (trace w) @ [180, 0])"
proof -
  define v where "v = on_face_result result w"
  have v: "face_result_queue v = [result]" "trace v = trace w"
    using assms(2) by (simp_all add: v_def on_face_result_def)
  have ok: "snd (start_face_recognition ok now v)"
    using assms(4) by (simp add: v_def)
  define s where "s = fst (start_face_recognition ok now v)"
  have s: "face_recognition_pending s" "face_recognition_start_time s = now"
    "face_result_queue s = result # []" "trace s = trace w @ [Submit (submitted v)]"
    using start_success [OF ok] by (simp_all add: s_def v)
  have "check_face_recognition_result t t_open t_success s =
     (s\<lparr>active_image_futures := filter (\<lambda>f. f \<notin> finished s) (active_image_futures s),
        face_result_queue := [],
        face_recognition_pending := False,
        authorized_door_open := True,
        last_authorized_open_time := t_open,
        last_face_recognition_success := t_success,
        trace := trace s @
          [Store_authorized_door_open True, Store_last_authorized_open_time t_open,
           Notify ''AUTHORIZED_CARD'', Servo 180, Sleep 2, Servo 0]\<rparr>, True)"
    using s(1,3) assms(3,5) by (intro check_success) (simp_all add: s(2))
  then show ?thesis
    unfolding s_def [symmetric] v_def [symmetric]
    by (simp add: s(4) servo_commands_append)
qed


subsection \<open>Polling for a recognition result\<close>

text \<open>
  C10. When no recognition request is pending, \<open>check_face_recognition_result\<close> returns
  \<open>False\<close> at once and the whole state is as before: the authorization window, the
  cooldown clock, the pending flag, the set of tracked futures and the result queue, from
  which nothing is taken.
\<close>

theorem poll_without_request_changes_nothing:
  "\<not> face_recognition_pending w \<Longrightarrow>
     check_face_recognition_result current_time t_open t_success w = (w, False)"
  by (simp add: check_face_recognition_result_def)

theorem poll_without_request_changes_nothing_witness:
  "\<not> face_recognition_pending (initial_world\<lparr>face_result_queue := [''alice'']\<rparr>) \<and>
   check_face_recognition_result 100 100 100 (initial_world\<lparr>face_result_queue := [''alice'']\<rparr>)
     = (initial_world\<lparr>face_result_queue := [''alice'']\<rparr>, False)"
  using poll_without_request_changes_nothing
          [of "initial_world\<lparr>face_result_queue := [''alice'']\<rparr>" 100 100 100]
  by (simp add: initial_world_def)

text \<open>
  C7. A poll made while a request is pending and more than \<open>FACE_RECOGNITION_TIMEOUT\<close>
  seconds after its start clears the pending flag and returns \<open>False\<close>. Nothing is added to
  the trace, so there is no servo command and no status message, and the authorization
  window, the cooldown clock and the result queue are as before. This holds whether or not a
  result is waiting in the queue.
\<close>

theorem poll_after_timeout_gives_no_decision:
  assumes "face_recognition_pending w"
    and "current_time - face_recognition_start_time w > FACE_RECOGNITION_TIMEOUT"
  shows "(let (w', decision) = check_face_recognition_result current_time t_open t_success w in
           \<not> decision \<and> \<not> face_recognition_pending w' \<and>
           trace w' = trace w \<and>
           authorized_door_open w' = authorized_door_open w \<and>
           last_authorized_open_time w' = last_authorized_open_time w \<and>
           last_face_recognition_success w' = last_face_recognition_success w \<and>
           face_result_queue w' = face_result_queue w)"
  using assms by (simp add: check_timeout)

theorem poll_after_timeout_gives_no_decision_witness:
  "face_recognition_pending
     (initial_world\<lparr>face_recognition_pending := True, face_recognition_start_time := 100\<rparr>) \<and>
   106 - face_recognition_start_time
     (initial_world\<lparr>face_recognition_pending := True, face_recognition_start_time := 100\<rparr>)
     > FACE_RECOGNITION_TIMEOUT \<and>
   check_face_recognition_result 106 106 106
     (initial_world\<lparr>face_recognition_pending := True, face_recognition_start_time := 100\<rparr>)
     = (initial_world\<lparr>face_recognition_start_time := 100\<rparr>, False)"
  using poll_after_timeout_gives_no_decision
    [of "initial_world\<lparr>face_recognition_pending := True, face_recognition_start_time := 100\<rparr>"
        106 106 106]
  by (simp add: initial_world_def FACE_RECOGNITION_TIMEOUT_def
        check_face_recognition_result_def)

subsection \<open>The pool of capture tasks\<close>

text \<open>
  C5. Whatever steps the threads have taken since the start of the program, no more than two
  capture tasks are in flight. When two are in flight, \<open>start_face_recognition\<close> returns
  \<open>False\<close>, the executor is handed no task (its count of created futures and the trace
  are as before), the tasks in flight are the same, and the pending flag and the start time
  of the request are unchanged.
\<close>

theorem start_face_recognition_respects_pool_limit:
  "length (in_flight (run cs initial_world)) \<le> 2 \<and>
   (length (in_flight (run cs initial_world)) = 2 \<longrightarrow>
      (let w = run cs initial_world;
           (w', started) = start_face_recognition ok now w
       in \<not> started \<and> submitted w' = submitted w \<and> trace w' = trace w \<and>
          in_flight w' = in_flight w \<and>
          face_recognition_pending w' = face_recognition_pending w \<and>
          face_recognition_start_time w' = face_recognition_start_time w))"
proof -
  let ?w = "run cs initial_world"
  have inv: "pool_inv ?w"
    using pool_inv_initial by (rule pool_inv_run)
  have bound: "length (in_flight ?w) \<le> 2"
    using inv by (rule in_flight_bound(3))
  have "length (in_flight ?w) = 2 \<Longrightarrow>
          start_face_recognition ok now ?w =
            (?w\<lparr>active_image_futures :=
                   filter (\<lambda>f. f \<notin> finished ?w) (active_image_futures ?w)\<rparr>, False)"
    using in_flight_bound(2) [OF inv] by (simp add: start_full)
  then show ?thesis
    using bound by (simp add: in_flight_def)
qed

theorem start_face_recognition_respects_pool_limit_witness:
  "length (in_flight (run [Start_face_recognition True 100, Start_face_recognition True 101]
                        initial_world)) = 2 \<and>
   snd (start_face_recognition True 102
          (run [Start_face_recognition True 100, Start_face_recognition True 101]
             initial_world)) = False \<and>
   submitted (fst (start_face_recognition True 102
          (run [Start_face_recognition True 100, Start_face_recognition True 101]
             initial_world))) = 2"
  using start_face_recognition_respects_pool_limit
          [of "[Start_face_recognition True 100, Start_face_recognition True 101]" True 102]
  by (simp add: start_face_recognition_def initial_world_def in_flight_def emit_def Let_def)

text \<open>
  C9. The poll that times a request out changes two things only: it clears the pending flag
  and it drops the finished futures from the tracked set. The unfinished ones stay tracked
  and the executor is not touched, so nothing is cancelled. If two of them are unfinished,
  a call of \<open>start_face_recognition\<close> right after the timeout is refused and submits
  nothing, although no request is pending.
\<close>

theorem timeout_leaves_capture_tasks_in_pool:
  assumes "face_recognition_pending w"
    and "t - face_recognition_start_time w > FACE_RECOGNITION_TIMEOUT"
  shows "check_face_recognition_result t t_open t_success w =
           (w\<lparr>active_image_futures :=
                 filter (\<lambda>f. f \<notin> finished w) (active_image_futures w),
               face_recognition_pending := False\<rparr>, False) \<and>
         (2 \<le> length (filter (\<lambda>f. f \<notin> finished w) (active_image_futures w)) \<longrightarrow>
            snd (start_face_recognition ok now
                   (fst (check_face_recognition_result t t_open t_success w))) = False \<and>
            submitted (fst (start_face_recognition ok now
                   (fst (check_face_recognition_result t t_open t_success w)))) = submitted w)"
  using assms by (simp add: check_timeout start_full)

theorem timeout_leaves_capture_tasks_in_pool_witness:
  "face_recognition_pending two_hanging_captures \<and>
   113 - face_recognition_start_time two_hanging_captures > FACE_RECOGNITION_TIMEOUT \<and>
   2 \<le> length (filter (\<lambda>f. f \<notin> finished two_hanging_captures)
                  (active_image_futures two_hanging_captures)) \<and>
   \<not> face_recognition_pending
       (fst (check_face_recognition_result 113 113 113 two_hanging_captures)) \<and>
   active_image_futures
       (fst (check_face_recognition_result 113 113 113 two_hanging_captures)) = [1, 0] \<and>
   snd (start_face_recognition True 114
          (fst (check_face_recognition_result 113 113 113 two_hanging_captures))) = False"
proof -
  have p: "face_recognition_pending two_hanging_captures"
    and t: "113 - face_recognition_start_time two_hanging_captures > FACE_RECOGNITION_TIMEOUT"
    and a: "active_image_futures two_hanging_captures = [1, 0]"
    and f: "finished two_hanging_captures = {}"
    by (simp_all add: two_hanging_captures_eq initial_world_def FACE_RECOGNITION_TIMEOUT_def)
  note c = timeout_leaves_capture_tasks_in_pool [OF p t, of 113 113 True 114]
  show ?thesis
    using c [THEN conjunct1] c [THEN conjunct2] p t
    by (simp add: a f)
qed



subsection \<open>The proximity gate\<close>

text \<open>
  C4. The condition under which an iteration of the main loop starts a recognition attempt
  holds exactly when no request is pending, the loop's clock reading is more than
  \<open>IMAGE_COOLDOWN\<close> = 3 after the last image attempt and more than
  \<open>FACE_RECOGNITION_COOLDOWN\<close> = 10 after the last recognition success, the last motion is
  at most 5 seconds before the clock reading of the motion check, and the distance sensor
  returns a value of at most 50. A distance read that raises or returns nothing makes the
  condition false, and the condition is false whenever a request is pending.
\<close>

theorem proximity_gate_iff:
  "(proximity_gate env w \<longleftrightarrow>
      \<not> face_recognition_pending w \<and>
      loop_time env - last_image_attempt w > 3 \<and>
      loop_time env - last_face_recognition_success w > 10 \<and>
      motion_time env - last_motion_time w \<le> 5 \<and>
      (\<exists>d. distance env = Returns (Some d) \<and> d \<le> 50)) \<and>
   (distance env = Raises \<or> distance env = Returns None \<longrightarrow> \<not> proximity_gate env w) \<and>
   (face_recognition_pending w \<longrightarrow> \<not> proximity_gate env w)"
  by (auto simp: proximity_gate_def check_motion_and_distance_iff
        IMAGE_COOLDOWN_def FACE_RECOGNITION_COOLDOWN_def)

theorem proximity_gate_iff_witness:
  "proximity_gate visitor_tick (initial_world\<lparr>last_motion_time := 998\<rparr>) \<and>
   \<not> proximity_gate (visitor_tick\<lparr>distance := Raises\<rparr>) (initial_world\<lparr>last_motion_time := 998\<rparr>) \<and>
   \<not> proximity_gate visitor_tick
        (initial_world\<lparr>last_motion_time := 998, face_recognition_pending := True\<rparr>)"
  using proximity_gate_iff [of visitor_tick "initial_world\<lparr>last_motion_time := 998\<rparr>"]
    proximity_gate_iff [of "visitor_tick\<lparr>distance := Raises\<rparr>" "initial_world\<lparr>last_motion_time := 998\<rparr>"]
    proximity_gate_iff [of visitor_tick "initial_world\<lparr>last_motion_time := 998, face_recognition_pending := True\<rparr>"]
  by (simp add: visitor_tick_def initial_world_def)

subsection \<open>The motion tracker\<close>

text \<open>
  C8, as the code has it. The PIR callback stores its clock reading in \<open>last_motion_time\<close>
  and adds one to \<open>motion_count\<close>. The motion check is true only if its clock reading is
  at most 5 after \<open>last_motion_time\<close>, and with a distance of at most 50 it is true exactly
  then; it cannot write a global, and the iteration of the main loop that calls it leaves
  \<open>last_motion_time\<close> as it was. After any sequence of steps of the threads
  \<open>last_motion_time\<close> is the clock reading of the latest PIR callback, or its starting
  value if there was none. So the values it takes along the sequence are non-decreasing
  exactly if the clock readings of the callbacks, preceded by the starting value, are.
\<close>

theorem last_motion_time_follows_callback_clock:
  "last_motion_time (pir_motion_callback t w) = t \<and>
   motion_count (pir_motion_callback t w) = motion_count w + 1 \<and>
   (check_motion_and_distance t reading w \<longrightarrow> t - last_motion_time w \<le> 5) \<and>
   (d \<le> 50 \<longrightarrow>
      check_motion_and_distance t (Returns (Some d)) w = (t - last_motion_time w \<le> 5)) \<and>
   last_motion_time (fst (main_tick env w)) = last_motion_time w \<and>
   last_motion_time (run cs w) = last (last_motion_time w # pir_readings cs) \<and>
   sorted (motion_times cs w) = sorted (last_motion_time w # pir_readings cs)"
  by (simp add: pir_motion_callback_def check_motion_and_distance_iff
        main_tick_last_motion_time run_last_motion_time motion_times_sorted_iff)

theorem last_motion_time_follows_callback_clock_witness:
  "sorted (last_motion_time initial_world #
             pir_readings [Pir_motion_callback 998, Main_tick visitor_tick,
                           Pir_motion_callback 1003]) \<and>
   motion_times [Pir_motion_callback 998, Main_tick visitor_tick, Pir_motion_callback 1003]
     initial_world = [0, 998, 998, 1003] \<and>
   sorted (motion_times [Pir_motion_callback 998, Main_tick visitor_tick,
                         Pir_motion_callback 1003] initial_world) \<and>
   last_motion_time (run [Pir_motion_callback 998, Main_tick visitor_tick,
                          Pir_motion_callback 1003] initial_world) = 1003 \<and>
   check_motion_and_distance 1000 (Returns (Some 30)) (pir_motion_callback 998 initial_world) \<and>
   \<not> check_motion_and_distance 1004 (Returns (Some 30)) (pir_motion_callback 998 initial_world)"
  using last_motion_time_follows_callback_clock [of 998 initial_world "Returns (Some 30)" 30 visitor_tick
              "[Pir_motion_callback 998, Main_tick visitor_tick, Pir_motion_callback 1003]"]
    last_motion_time_follows_callback_clock [of 1000 "pir_motion_callback 998 initial_world" "Returns (Some 30)" 30]
    last_motion_time_follows_callback_clock [of 1004 "pir_motion_callback 998 initial_world" "Returns (Some 30)" 30]
  by (simp add: pir_motion_callback_def initial_world_def main_tick_last_motion_time)


text \<open>
  The claim fails as stated: the callback reads \<open>time.time()\<close>, the wall clock, and when it
  is set back between two callbacks \<open>last_motion_time\<close> goes back with it.
\<close>

theorem clock_step_back_lowers_last_motion_time:
  "motion_times [Pir_motion_callback 1000, Pir_motion_callback 999] initial_world
     = [0, 1000, 999] \<and>
   \<not> sorted (motion_times [Pir_motion_callback 1000, Pir_motion_callback 999] initial_world)"
  by (simp add: pir_motion_callback_def initial_world_def)

subsection \<open>Card events\<close>

text \<open>
  C6. A card event drained from the queue, in any state that the threads can reach from the
  start of the program. If it is authorized, the call sends one \<open>AUTHORIZED_CARD\<close> message,
  then sets \<open>authorized_door_open\<close> and \<open>last_authorized_open_time\<close> (to its clock
  reading), and only then commands the servo: once to 180, and after a sleep of 2 seconds
  once to 0. What follows in the trace are the sleeps of the removal loop and, when the loop
  has left, the final sleep; the loop leaves exactly if a read reports no card or raises. If
  the event is not authorized, the call sends one \<open>UNAUTHORIZED_CARD\<close> message, sleeps, and
  commands no servo.
\<close>

theorem card_event_sequence:
  assumes "rfid_queue (run cs initial_world) = (authorized, uid) # rest"
  shows "(authorized \<longrightarrow>
            process_rfid_events now reads (run cs initial_world) =
              (let k = length (takeWhile card_present reads);
                   returned = (k < length reads)
               in ((run cs initial_world)
                     \<lparr>rfid_queue := rest,
                      authorized_door_open := True,
                      last_authorized_open_time := now,
                      trace := trace (run cs initial_world) @
                        [Notify ''AUTHORIZED_CARD'', Store_authorized_door_open True,
                         Store_last_authorized_open_time now, Servo 180, Sleep 2, Servo 0] @
                        replicate k (Sleep (1/10)) @
                        (if returned then [Sleep (1/2)] else [])\<rparr>,
                   returned))) \<and>
         (\<not> authorized \<longrightarrow>
            process_rfid_events now reads (run cs initial_world) =
              ((run cs initial_world)
                 \<lparr>rfid_queue := rest,
                  trace := trace (run cs initial_world) @
                    [Notify ''UNAUTHORIZED_CARD'', Sleep (1/2)]\<rparr>, True))"
proof -
  have "queue_inv (run cs initial_world)"
    using queue_inv_initial by (rule queue_inv_run)
  then have u: "truthy uid"
    using assms by (simp add: queue_inv_def)
  show ?thesis
    using assms u process_rfid_events_authorized process_rfid_events_unauthorized
    by (cases authorized) simp_all
qed


theorem card_event_sequence_witness:
  "rfid_queue (run [Rfid_reader (Returns (True, Some ''0C00201B99''))] initial_world)
     = [(True, Some ''0C00201B99'')] \<and>
   process_rfid_events 1000
     [Returns (True, Some ''0C00201B99''), Returns (False, None)]
     (run [Rfid_reader (Returns (True, Some ''0C00201B99''))] initial_world) =
     (initial_world
        \<lparr>authorized_door_open := True,
         last_authorized_open_time := 1000,
         trace := [Notify ''AUTHORIZED_CARD'', Store_authorized_door_open True,
                   Store_last_authorized_open_time 1000, Servo 180, Sleep 2, Servo 0,
                   Sleep (1/10), Sleep (1/2)]\<rparr>, True) \<and>
   rfid_queue (run [Rfid_reader (Returns (False, Some ''DEADBEEF00''))] initial_world)
     = [(False, Some ''DEADBEEF00'')] \<and>
   process_rfid_events 1000 []
     (run [Rfid_reader (Returns (False, Some ''DEADBEEF00''))] initial_world) =
     (initial_world\<lparr>trace := [Notify ''UNAUTHORIZED_CARD'', Sleep (1/2)]\<rparr>, True)"
proof -
  have a: "rfid_queue (run [Rfid_reader (Returns (True, Some ''0C00201B99''))] initial_world)
             = (True, Some ''0C00201B99'') # []"
    and b: "rfid_queue (run [Rfid_reader (Returns (False, Some ''DEADBEEF00''))] initial_world)
             = (False, Some ''DEADBEEF00'') # []"
    by (simp_all add: rfid_reader_thread_def initial_world_def)
  show ?thesis
    using card_event_sequence [OF a, of 1000
            "[Returns (True, Some ''0C00201B99''), Returns (False, None)]"]
      card_event_sequence [OF b, of 1000 "[]"]
    by (simp add: rfid_reader_thread_def initial_world_def)
qed

subsection \<open>The alarm\<close>

text \<open>
  C1. An iteration of the alarm monitor turns the alarm on, and sends a \<open>PHYSICAL_ALARM\<close>
  message, exactly when the alarm is off, the door reads open, \<open>authorized_door_open\<close> is
  false and its clock reading is more than \<open>AUTHORIZED_DOOR_OPEN_INTERVAL\<close> = 5 after
  \<open>last_authorized_open_time\<close>; it then sends one message, and in every other case none.
  A closed reading turns the alarm off and clears \<open>authorized_door_open\<close>, whatever the
  state. Over any steps of the threads among which the monitor reads no closed door, at
  most one \<open>PHYSICAL_ALARM\<close> is sent. When the monitor alone processes readings that are
  open or closed, with a clock that does not go back and starting with the alarm off, the
  alarm is on after a reading exactly if that reading is open, \<open>authorized_door_open\<close> is
  false and the reading is more than 5 seconds after \<open>last_authorized_open_time\<close>.
\<close>

theorem alarm_monitor_notifies_once:
  "(let w' = alarm_monitor_thread reading t w;
        fires = (reading = Returns 0 \<and> \<not> authorized_door_open w \<and>
                 t - last_authorized_open_time w > AUTHORIZED_DOOR_OPEN_INTERVAL \<and>
                 \<not> door_open_alarm_triggered w)
    in (door_open_alarm_triggered w' \<and> \<not> door_open_alarm_triggered w \<longleftrightarrow> fires) \<and>
       notifications (trace w') =
         notifications (trace w) @ (if fires then [''PHYSICAL_ALARM''] else []) \<and>
       (reading = Returns 1 \<longrightarrow>
          \<not> door_open_alarm_triggered w' \<and> \<not> authorized_door_open w')) \<and>
   ((\<forall>c \<in> set cs. \<not> closed_reading c) \<longrightarrow>
      physical_alarms (trace (run cs w)) \<le> physical_alarms (trace w) + 1) \<and>
   (rs \<noteq> [] \<and> (\<forall>r \<in> set rs. fst r = Returns 0 \<or> fst r = Returns 1) \<and>
    sorted (map snd rs) \<and> \<not> door_open_alarm_triggered w \<longrightarrow>
      (door_open_alarm_triggered (alarm_monitor_run rs w) \<longleftrightarrow>
         fst (last rs) = Returns 0 \<and>
         \<not> authorized_door_open (alarm_monitor_run rs w) \<and>
         snd (last rs) - last_authorized_open_time (alarm_monitor_run rs w)
           > AUTHORIZED_DOOR_OPEN_INTERVAL))"
proof -
  have one: "let w' = alarm_monitor_thread reading t w;
        fires = (reading = Returns 0 \<and> \<not> authorized_door_open w \<and>
                 t - last_authorized_open_time w > AUTHORIZED_DOOR_OPEN_INTERVAL \<and>
                 \<not> door_open_alarm_triggered w)
    in (door_open_alarm_triggered w' \<and> \<not> door_open_alarm_triggered w \<longleftrightarrow> fires) \<and>
       notifications (trace w') =
         notifications (trace w) @ (if fires then [''PHYSICAL_ALARM''] else []) \<and>
       (reading = Returns 1 \<longrightarrow>
          \<not> door_open_alarm_triggered w' \<and> \<not> authorized_door_open w')"
    by (auto simp: Let_def alarm_monitor_thread_step AUTHORIZED_DOOR_OPEN_INTERVAL_def)
  have two: "(\<forall>c \<in> set cs. \<not> closed_reading c) \<longrightarrow>
      physical_alarms (trace (run cs w)) \<le> physical_alarms (trace w) + 1"
  proof
    assume "\<forall>c \<in> set cs. \<not> closed_reading c"
    then have "physical_alarms (trace (run cs w)) \<le>
           physical_alarms (trace w) + (if door_open_alarm_triggered w then 0 else 1)"
      by (rule run_alarms)
    then show "physical_alarms (trace (run cs w)) \<le> physical_alarms (trace w) + 1"
      by (simp split: if_splits)
  qed
  have three: "rs \<noteq> [] \<and> (\<forall>r \<in> set rs. fst r = Returns 0 \<or> fst r = Returns 1) \<and>
    sorted (map snd rs) \<and> \<not> door_open_alarm_triggered w \<longrightarrow>
      (door_open_alarm_triggered (alarm_monitor_run rs w) \<longleftrightarrow>
         fst (last rs) = Returns 0 \<and>
         \<not> authorized_door_open (alarm_monitor_run rs w) \<and>
         snd (last rs) - last_authorized_open_time (alarm_monitor_run rs w)
           > AUTHORIZED_DOOR_OPEN_INTERVAL)"
  proof
    assume a: "rs \<noteq> [] \<and> (\<forall>r \<in> set rs. fst r = Returns 0 \<or> fst r = Returns 1) \<and>
      sorted (map snd rs) \<and> \<not> door_open_alarm_triggered w"
    then have "sorted (snd (hd rs) # map snd rs)"
      by (cases rs) auto
    then show "door_open_alarm_triggered (alarm_monitor_run rs w) \<longleftrightarrow>
         fst (last rs) = Returns 0 \<and>
         \<not> authorized_door_open (alarm_monitor_run rs w) \<and>
         snd (last rs) - last_authorized_open_time (alarm_monitor_run rs w)
           > AUTHORIZED_DOOR_OPEN_INTERVAL"
      using a alarm_run_state [of rs "snd (hd rs)" w]
      by (simp add: AUTHORIZED_DOOR_OPEN_INTERVAL_def)
  qed
  show ?thesis
    using one two three by blast
qed

theorem alarm_monitor_notifies_once_witness:
  "door_open_alarm_triggered (alarm_monitor_thread (Returns 0) 100 initial_world) \<and>
   notifications (trace (alarm_monitor_thread (Returns 0) 100 initial_world))
     = [''PHYSICAL_ALARM''] \<and>
   \<not> closed_reading (Alarm_monitor (Returns 0) 100) \<and>
   \<not> closed_reading (Alarm_monitor (Returns 0) (1001/10)) \<and>
   physical_alarms (trace (run [Alarm_monitor (Returns 0) 100,
                                Alarm_monitor (Returns 0) (1001/10)] initial_world)) = 1 \<and>
   sorted (map snd [(Returns 1, 99), (Returns 0, 100), (Returns (0::int), 1001/10::real)]) \<and>
   door_open_alarm_triggered
     (alarm_monitor_run [(Returns 1, 99), (Returns 0, 100), (Returns 0, 1001/10)]
        initial_world)"
  using alarm_monitor_notifies_once [of "Returns 0" 100 initial_world
              "[Alarm_monitor (Returns 0) 100, Alarm_monitor (Returns 0) (1001/10)]"
              "[(Returns 1, 99), (Returns 0, 100), (Returns 0, 1001/10)]"]
  by (simp add: alarm_monitor_thread_step initial_world_def physical_alarms_def
        AUTHORIZED_DOOR_OPEN_INTERVAL_def)



subsection \<open>Results that come late\<close>

text \<open>
  C2, as the code has it. No step of any thread drops a result: the listener appends to the
  queue, and the queue loses an element, its head, only in a poll made while a request is
  pending and not timed out; starting a request, a timeout and every other step leave the
  queue as it is. A result delivered while no request is pending stays in the queue, and a
  poll made while no request is pending returns \<open>False\<close> and changes nothing: no servo
  command, and the authorization window and the cooldown clock are unchanged. A poll made
  while a request is pending and not timed out takes the head of the queue, whenever it was
  delivered. If the head is not \<open>unknown\<close>, the poll sets the authorization window and the
  cooldown clock and commands the servo to 180 and to 0; if it is \<open>unknown\<close>, the poll only
  removes it and clears the pending flag. In particular, when a result other than
  \<open>unknown\<close> is delivered to an empty queue while no request is pending and a request is
  started after that, the first poll within the timeout opens the door on that result.
\<close>

theorem late_result_kept_for_next_request:
  "face_result_queue (perform c w) =
     (case c of
        On_face_result r \<Rightarrow> face_result_queue w @ [r]
      | Check_face_recognition_result tc to ts \<Rightarrow>
          if face_recognition_pending w \<and>
             \<not> tc - face_recognition_start_time w > FACE_RECOGNITION_TIMEOUT
          then tl (face_result_queue w) else face_result_queue w
      | Main_tick env \<Rightarrow>
          if snd (process_rfid_events (rfid_time env) (removal_reads env) w) \<and>
             face_recognition_pending w \<and>
             \<not> check_time env - face_recognition_start_time w > FACE_RECOGNITION_TIMEOUT
          then tl (face_result_queue w) else face_result_queue w
      | _ \<Rightarrow> face_result_queue w) \<and>
   (\<not> face_recognition_pending w \<longrightarrow>
      check_face_recognition_result t t_open t_success (on_face_result result w)
        = (on_face_result result w, False)) \<and>
   (face_recognition_pending w \<and>
    \<not> t - face_recognition_start_time w > FACE_RECOGNITION_TIMEOUT \<and>
    face_result_queue w = result # rest \<and> result \<noteq> ''unknown'' \<longrightarrow>
      (let (w', decision) = check_face_recognition_result t t_open t_success w in
         decision \<and> face_result_queue w' = rest \<and> \<not> face_recognition_pending w' \<and>
         authorized_door_open w' \<and> last_authorized_open_time w' = t_open \<and>
         last_face_recognition_success w' = t_success \<and>
         servo_commands (trace w') = servo_commands (trace w) @ [180, 0])) \<and>
   (face_recognition_pending w \<and>
    \<not> t - face_recognition_start_time w > FACE_RECOGNITION_TIMEOUT \<and>
    face_result_queue w = ''unknown'' # rest \<longrightarrow>
      check_face_recognition_result t t_open t_success w =
        (w\<lparr>active_image_futures :=
              filter (\<lambda>f. f \<notin> finished w) (active_image_futures w),
            face_result_queue := rest,
            face_recognition_pending := False\<rparr>, False)) \<and>
   (\<not> face_recognition_pending w \<and> face_result_queue w = [] \<and> result \<noteq> ''unknown'' \<and>
    snd (start_face_recognition ok now (on_face_result result w)) \<and>
    \<not> t - now > FACE_RECOGNITION_TIMEOUT \<longrightarrow>
      (let (w', decision) =
             check_face_recognition_result t t_open t_success
               (fst (start_face_recognition ok now (on_face_result result w)))
       in decision \<and> face_result_queue w' = [] \<and>
          authorized_door_open w' \<and> last_authorized_open_time w' = t_open \<and>
          last_face_recognition_success w' = t_success \<and>
          servo_commands (trace w') = servo_commands (trace w) @ [180, 0]))"
proof -
  have e: "\<not> face_recognition_pending w \<and> face_result_queue w = [] \<and>
    result \<noteq> ''unknown'' \<and>
    snd (start_face_recognition ok now (on_face_result result w)) \<and>
    \<not> t - now > FACE_RECOGNITION_TIMEOUT \<longrightarrow>
      (let (w', decision) =
             check_face_recognition_result t t_open t_success
               (fst (start_face_recognition ok now (on_face_result result w)))
       in decision \<and> face_result_queue w' = [] \<and>
          authorized_door_open w' \<and> last_authorized_open_time w' = t_open \<and>
          last_face_recognition_success w' = t_success \<and>
          servo_commands (trace w') = servo_commands (trace w) @ [180, 0])"
    using late_result_end_to_end [of w result ok now t t_open t_success] by blast
  have b: "\<not> face_recognition_pending w \<longrightarrow>
      check_face_recognition_result t t_open t_success (on_face_result result w)
        = (on_face_result result w, False)"
    by (simp add: check_not_pending on_face_result_def)
  have c: "face_recognition_pending w \<and>
    \<not> t - face_recognition_start_time w > FACE_RECOGNITION_TIMEOUT \<and>
    face_result_queue w = result # rest \<and> result \<noteq> ''unknown'' \<longrightarrow>
      (let (w', decision) = check_face_recognition_result t t_open t_success w in
         decision \<and> face_result_queue w' = rest \<and> \<not> face_recognition_pending w' \<and>
         authorized_door_open w' \<and> last_authorized_open_time w' = t_open \<and>
         last_face_recognition_success w' = t_success \<and>
         servo_commands (trace w') = servo_commands (trace w) @ [180, 0])"
    by (simp add: check_success servo_commands_append)
  have d: "face_recognition_pending w \<and>
    \<not> t - face_recognition_start_time w > FACE_RECOGNITION_TIMEOUT \<and>
    face_result_queue w = ''unknown'' # rest \<longrightarrow>
      check_face_recognition_result t t_open t_success w =
        (w\<lparr>active_image_futures :=
              filter (\<lambda>f. f \<notin> finished w) (active_image_futures w),
            face_result_queue := rest,
            face_recognition_pending := False\<rparr>, False)"
    using check_unknown [of w t rest t_open t_success] by blast
  show ?thesis
    using perform_result_queue [of c w] b c d e by blast
qed

theorem late_result_kept_for_next_request_witness:
  "\<not> face_recognition_pending initial_world \<and>
   check_face_recognition_result 107 107 107 (on_face_result ''alice'' initial_world)
     = (on_face_result ''alice'' initial_world, False) \<and>
   face_result_queue
     (perform (Start_face_recognition True 121) (on_face_result ''alice'' initial_world))
     = [''alice''] \<and>
   snd (start_face_recognition True 121 (on_face_result ''alice'' initial_world)) \<and>
   \<not> 1211/10 - 121 > FACE_RECOGNITION_TIMEOUT \<and>
   servo_commands (trace (fst (check_face_recognition_result (1211/10) (1211/10) (1211/10)
        (fst (start_face_recognition True 121 (on_face_result ''alice'' initial_world))))))
     = [180, 0] \<and>
   face_recognition_pending
     (initial_world\<lparr>face_result_queue := [''unknown'', ''alice''],
        face_recognition_pending := True, face_recognition_start_time := 121\<rparr>) \<and>
   check_face_recognition_result (1211/10) (1211/10) (1211/10)
     (initial_world\<lparr>face_result_queue := [''unknown'', ''alice''],
        face_recognition_pending := True, face_recognition_start_time := 121\<rparr>)
     = (initial_world\<lparr>face_result_queue := [''alice''],
          face_recognition_start_time := 121\<rparr>, False) \<and>
   servo_commands (trace (fst (check_face_recognition_result (1211/10) (1211/10) (1211/10)
        (initial_world\<lparr>face_result_queue := [''alice''], face_recognition_pending := True,
           face_recognition_start_time := 121\<rparr>)))) = [180, 0]"
proof -
  let ?u = "initial_world\<lparr>face_result_queue := [''unknown'', ''alice''],
              face_recognition_pending := True, face_recognition_start_time := 121\<rparr>"
  let ?a = "initial_world\<lparr>face_result_queue := [''alice''],
              face_recognition_pending := True, face_recognition_start_time := 121\<rparr>"
  have h1: "\<not> face_recognition_pending initial_world"
    and h2: "face_result_queue initial_world = []"
    and h3: "servo_commands (trace initial_world) = []"
    and h4: "\<not> 1211/10 - 121 > FACE_RECOGNITION_TIMEOUT"
    by (simp_all add: initial_world_def FACE_RECOGNITION_TIMEOUT_def)
  have s: "snd (start_face_recognition True 121 (on_face_result ''alice'' initial_world))"
    by (simp add: start_face_recognition_def on_face_result_def initial_world_def Let_def)
  note i1 = late_result_kept_for_next_request
        [where c = "Future_done 0" and w = initial_world and t = 107
        and t_open = 107 and t_success = 107 and result = "''alice''" and rest = "[]"
        and ok = True and now = 121]
  have f1: "check_face_recognition_result 107 107 107 (on_face_result ''alice'' initial_world)
              = (on_face_result ''alice'' initial_world, False)"
    using i1 [THEN conjunct2, THEN conjunct1] h1 by blast
  note i2 = late_result_kept_for_next_request
        [where c = "Start_face_recognition True 121"
        and w = "on_face_result ''alice'' initial_world" and t = 107
        and t_open = 107 and t_success = 107 and result = "''alice''" and rest = "[]"
        and ok = True and now = 121]
  have f2: "face_result_queue
     (perform (Start_face_recognition True 121) (on_face_result ''alice'' initial_world))
     = [''alice'']"
    using i2 [THEN conjunct1] h2 by (simp add: on_face_result_def)
  note i3 = late_result_kept_for_next_request
        [where c = "Future_done 0" and w = initial_world and t = "1211/10"
        and t_open = "1211/10" and t_success = "1211/10" and result = "''alice''"
        and rest = "[]" and ok = True and now = 121]
  have f3: "servo_commands (trace (fst (check_face_recognition_result
        (1211/10) (1211/10) (1211/10)
        (fst (start_face_recognition True 121 (on_face_result ''alice'' initial_world))))))
     = [180, 0]"
    using i3 [THEN conjunct2, THEN conjunct2, THEN conjunct2, THEN conjunct2] h1 h2 h3 h4 s
    by (simp add: case_prod_beta)
  have u1: "face_recognition_pending ?u"
    and u2: "\<not> 1211/10 - face_recognition_start_time ?u > FACE_RECOGNITION_TIMEOUT"
    and u3: "face_result_queue ?u = ''unknown'' # [''alice'']"
    by (simp_all add: FACE_RECOGNITION_TIMEOUT_def)
  note i4 = late_result_kept_for_next_request
        [where c = "Future_done 0" and w = ?u and t = "1211/10"
        and t_open = "1211/10" and t_success = "1211/10" and result = "''alice''"
        and rest = "[''alice'']" and ok = True and now = 121]
  have f4: "check_face_recognition_result (1211/10) (1211/10) (1211/10) ?u
     = (initial_world\<lparr>face_result_queue := [''alice''],
          face_recognition_start_time := 121\<rparr>, False)"
    using i4 [THEN conjunct2, THEN conjunct2, THEN conjunct2, THEN conjunct1] u1 u2 u3
    by (simp add: initial_world_def)
  have a1: "face_recognition_pending ?a"
    and a2: "\<not> 1211/10 - face_recognition_start_time ?a > FACE_RECOGNITION_TIMEOUT"
    and a3: "face_result_queue ?a = ''alice'' # []"
    and a4: "servo_commands (trace ?a) = []"
    by (simp_all add: FACE_RECOGNITION_TIMEOUT_def initial_world_def)
  note i5 = late_result_kept_for_next_request
        [where c = "Future_done 0" and w = ?a and t = "1211/10"
        and t_open = "1211/10" and t_success = "1211/10" and result = "''alice''"
        and rest = "[]" and ok = True and now = 121]
  have f5: "servo_commands (trace (fst (check_face_recognition_result
        (1211/10) (1211/10) (1211/10) ?a))) = [180, 0]"
    using i5 [THEN conjunct2, THEN conjunct2, THEN conjunct1] a1 a2 a3 a4
    by (simp add: case_prod_beta)
  show ?thesis
    using h1 f1 f2 s h4 f3 u1 f4 f5 by blast
qed

text \<open>
  The claim fails as stated: in \<open>stale_result_calls\<close> no request is pending when the result
  is delivered, the door stays shut until the second request is started, and the first poll
  for the second request opens the door on the late result and sets the cooldown clock.
\<close>

theorem stale_result_opens_door:
  "\<not> face_recognition_pending (run (take 4 stale_result_calls) initial_world) \<and>
   stale_result_calls ! 4 = On_face_result ''alice'' \<and>
   servo_commands (trace (run (take 8 stale_result_calls) initial_world)) = [] \<and>
   face_result_queue (run (take 8 stale_result_calls) initial_world) = [''alice''] \<and>
   servo_commands (trace (run stale_result_calls initial_world)) = [180, 0] \<and>
   authorized_door_open (run stale_result_calls initial_world) \<and>
   last_face_recognition_success (run stale_result_calls initial_world) = 1211/10"
  by (simp add: stale_result_calls_def tick_at_def eval_defs)


subsection \<open>The cooldown\<close>

text \<open>
  C3, as the code has it. A poll that finds a result other than \<open>unknown\<close> for a pending
  request returns \<open>True\<close> and sets \<open>last_face_recognition_success\<close> to its clock reading.
  \<open>process_rfid_events\<close> never writes \<open>last_face_recognition_success\<close>. An iteration of
  the main loop submits a capture task only if its clock reading is more than
  \<open>FACE_RECOGNITION_COOLDOWN\<close> after \<open>last_face_recognition_success\<close>, the value at the
  end of the iteration included.
\<close>

theorem cooldown_after_face_success:
  "(face_recognition_pending w \<and>
    \<not> t - face_recognition_start_time w > FACE_RECOGNITION_TIMEOUT \<and>
    face_result_queue w = result # rest \<and> result \<noteq> ''unknown'' \<longrightarrow>
      snd (check_face_recognition_result t t_open t_success w) \<and>
      last_face_recognition_success (fst (check_face_recognition_result t t_open t_success w))
        = t_success) \<and>
   last_face_recognition_success (fst (process_rfid_events now reads w))
     = last_face_recognition_success w \<and>
   (submitted (fst (main_tick env w)) \<noteq> submitted w \<longrightarrow>
      loop_time env - last_face_recognition_success (fst (main_tick env w))
        > FACE_RECOGNITION_COOLDOWN)"
  by (simp add: check_success process_rfid_events_frame main_tick_cooldown)

theorem cooldown_after_face_success_witness:
  "face_recognition_pending
     (initial_world\<lparr>face_result_queue := [''alice''], face_recognition_pending := True,
        face_recognition_start_time := 121\<rparr>) \<and>
   \<not> 1211/10 - face_recognition_start_time
     (initial_world\<lparr>face_result_queue := [''alice''], face_recognition_pending := True,
        face_recognition_start_time := 121\<rparr>) > FACE_RECOGNITION_TIMEOUT \<and>
   last_face_recognition_success
     (fst (check_face_recognition_result (1211/10) (1211/10) (1211/10)
        (initial_world\<lparr>face_result_queue := [''alice''], face_recognition_pending := True,
           face_recognition_start_time := 121\<rparr>))) = 1211/10 \<and>
   submitted (fst (main_tick visitor_tick (initial_world\<lparr>last_motion_time := 998\<rparr>)))
     \<noteq> submitted (initial_world\<lparr>last_motion_time := 998\<rparr>) \<and>
   loop_time visitor_tick -
     last_face_recognition_success
       (fst (main_tick visitor_tick (initial_world\<lparr>last_motion_time := 998\<rparr>)))
     > FACE_RECOGNITION_COOLDOWN"
proof -
  have s: "submitted (fst (main_tick visitor_tick (initial_world\<lparr>last_motion_time := 998\<rparr>)))
             \<noteq> submitted (initial_world\<lparr>last_motion_time := 998\<rparr>)"
    by (simp add: visitor_tick_def eval_defs)
  show ?thesis
    using s
      cooldown_after_face_success [where w = "initial_world\<lparr>face_result_queue := [''alice''],
                       face_recognition_pending := True, face_recognition_start_time := 121\<rparr>"
            and t = "1211/10" and t_open = "1211/10" and t_success = "1211/10"
            and result = "''alice''" and rest = "[]"]
      cooldown_after_face_success [where w = "initial_world\<lparr>last_motion_time := 998\<rparr>" and env = visitor_tick]
    by (simp add: initial_world_def FACE_RECOGNITION_TIMEOUT_def)
qed


text \<open>
  The claim fails for an unlock by card: in \<open>card_then_capture\<close> the iteration that opens
  the door for the card submits a capture task 2.6 seconds after the unlock.
\<close>

theorem card_unlock_starts_no_cooldown:
  "trace card_then_capture =
     [Notify ''AUTHORIZED_CARD'', Store_authorized_door_open True,
      Store_last_authorized_open_time 1000, Servo 180, Sleep 2, Servo 0, Sleep (1/2),
      Submit 0, Sleep (5/100)] \<and>
   face_recognition_pending card_then_capture \<and>
   face_recognition_start_time card_then_capture - last_authorized_open_time card_then_capture
     < FACE_RECOGNITION_COOLDOWN"
  by (simp add: card_then_capture_def card_tick_def eval_defs)

end
